(* ===== verification/Prelude.thy ===== *)
theory Prelude
  imports Complex_Main "HOL-Library.Char_ord" "HOL-Library.List_Lexorder"
    "HOL-Library.Product_Lexorder" "HOL-Library.Sublist" "HOL-Library.Multiset"
begin

text \<open>
  Shared vocabulary of the dashboard model. The script \<open>src/dashboard/dashboard.py\<close>
  delegates its aggregations to a handful of pandas primitives; this theory fixes their
  semantics once, as executable HOL functions, together with the lemmas every component
  proof uses:
  \<^item> \<open>nunique\<close> (\<open>Series.nunique\<close>: number of distinct values),
  \<^item> \<open>sum_skipna\<close> and \<open>count_notna\<close> (\<open>sum\<close> and \<open>count\<close>, which skip NaN),
  \<^item> \<open>group_keys\<close> (the keys of \<open>groupby\<close>: NaN dropped, sorted ascending),
  \<^item> \<open>sort_values_desc\<close>, \<open>sort_values_asc\<close> (\<open>sort_values\<close> on one column, ties in
    input order),
  \<^item> \<open>argmax_first\<close> (\<open>idxmax\<close>: the first row holding the maximum, none on empty input),
  \<^item> \<open>dedup_by\<close> (\<open>drop_duplicates(subset=...)\<close> and \<open>unique\<close>: first occurrence kept),
  \<^item> \<open>value_counts\<close>, \<open>index_first\<close> (\<open>.index[0]\<close>, \<open>IndexError\<close> on empty) and
    \<open>series_mean\<close> (\<open>mean\<close>, NaN on empty, NaN as \<open>None\<close>).
  A NaN cell is \<open>None\<close> of an \<open>option\<close> column; a Python exception is a \<open>py_error\<close>.
\<close>

named_theorems table_simps "evaluation rules of the model's table operations"
named_theorems mset_cong "results that depend only on the multiset of input rows"

section \<open>Types and errors\<close>

type_synonym timestamp = int \<comment> \<open>seconds since the epoch, pandas \<open>Timestamp\<close>\<close>
type_synonym day = int \<comment> \<open>days since the epoch, a calendar date\<close>
type_synonym money = int \<comment> \<open>a payment amount in the dataset's smallest unit\<close>

datatype py_error = ValueError | IndexError

section \<open>pandas primitives\<close>

definition nunique :: "'a list \<Rightarrow> nat" where
  "nunique xs = length (remdups xs)"

definition sum_skipna :: "'a::comm_monoid_add option list \<Rightarrow> 'a" where
  "sum_skipna xs = sum_list (map (\<lambda>x. case x of None \<Rightarrow> 0 | Some v \<Rightarrow> v) xs)"

definition count_notna :: "'a option list \<Rightarrow> nat" where
  "count_notna xs = length (filter (\<lambda>x. x \<noteq> None) xs)"

definition group_keys :: "'k::linorder option list \<Rightarrow> 'k list" where
  "group_keys ks = sort (remdups [k. Some k \<leftarrow> ks])"

definition sort_values_desc :: "('a \<Rightarrow> nat) \<Rightarrow> 'a list \<Rightarrow> 'a list" where
  "sort_values_desc f xs = sort_key (\<lambda>x. - int (f x)) xs"

definition sort_values_asc :: "('a \<Rightarrow> nat) \<Rightarrow> 'a list \<Rightarrow> 'a list" where
  "sort_values_asc f xs = sort_key f xs"

fun argmax_first :: "('a \<Rightarrow> nat) \<Rightarrow> 'a list \<Rightarrow> 'a option" where
  "argmax_first f [] = None"
| "argmax_first f (x # xs) = Some (fold (\<lambda>y m. if f m < f y then y else m) xs x)"

fun dedup_by_aux :: "('a \<Rightarrow> 'k) \<Rightarrow> 'k list \<Rightarrow> 'a list \<Rightarrow> 'a list" where
  "dedup_by_aux f seen [] = []"
| "dedup_by_aux f seen (x # xs) =
     (if f x \<in> set seen then dedup_by_aux f seen xs else x # dedup_by_aux f (f x # seen) xs)"

definition dedup_by :: "('a \<Rightarrow> 'k) \<Rightarrow> 'a list \<Rightarrow> 'a list" where
  "dedup_by f xs = dedup_by_aux f [] xs"

definition value_counts :: "'a list \<Rightarrow> ('a \<times> nat) list" where
  "value_counts xs = sort_values_desc snd (map (\<lambda>k. (k, count_list xs k)) (dedup_by id xs))"

definition index_first :: "('a \<times> 'b) list \<Rightarrow> py_error + 'a" where
  "index_first ps = (case ps of [] \<Rightarrow> Inl IndexError | p # _ \<Rightarrow> Inr (fst p))"

definition series_mean :: "real list \<Rightarrow> real option" where
  "series_mean xs = (if xs = [] then None else Some (sum_list xs / real (length xs)))"

definition nonincreasing :: "nat list \<Rightarrow> bool" where
  "nonincreasing ns \<longleftrightarrow> sorted_wrt (\<lambda>a b. b \<le> a) ns"

text \<open>
  What pandas guarantees of \<open>Series.value_counts()\<close>: each distinct value once, with its
  count, sorted by count, largest first. The order among equal counts is not specified
  (pandas sorts with numpy's quicksort, which is not stable beyond 16 values);
  \<open>value_counts\<close> above is one admissible result.
\<close>

definition value_counts_admissible :: "'a list \<Rightarrow> ('a \<times> nat) list \<Rightarrow> bool" where
  "value_counts_admissible xs ys =
     (distinct (map fst ys) \<and> set (map fst ys) = set xs
      \<and> (\<forall>p \<in> set ys. snd p = count_list xs (fst p)) \<and> nonincreasing (map snd ys))"

section \<open>Lemmas on the primitives\<close>

declare nunique_def [table_simps]

lemma nunique_card: "nunique xs = card (set xs)"
  by (simp add: nunique_def length_remdups_card_conv)

lemma sum_skipna_Nil [simp]: "sum_skipna [] = 0"
  and sum_skipna_Cons [simp]:
    "sum_skipna (x # xs) = (case x of None \<Rightarrow> 0 | Some v \<Rightarrow> v) + sum_skipna xs"
  and sum_skipna_append [simp]: "sum_skipna (xs @ ys) = sum_skipna xs + sum_skipna ys"
  by (simp_all add: sum_skipna_def)

lemma count_notna_Nil [simp]: "count_notna [] = 0"
  and count_notna_Cons [simp]:
    "count_notna (x # xs) = (if x = None then 0 else 1) + count_notna xs"
  by (simp_all add: count_notna_def)

lemma count_notna_map: "count_notna (map h xs) = length (filter (\<lambda>x. h x \<noteq> None) xs)"
  by (simp add: count_notna_def filter_map comp_def)

lemma set_some_comprehension: "set [k. Some k \<leftarrow> ks] = {k. Some k \<in> set ks}"
  by auto

lemma set_group_keys [simp]: "set (group_keys ks) = {k. Some k \<in> set ks}"
  by (auto simp: group_keys_def)

lemma group_keys_sorted_distinct: "sorted (group_keys ks) \<and> distinct (group_keys ks)"
  by (simp add: group_keys_def)

lemma group_keys_sorted_list_of_set:
  "group_keys ks = sorted_list_of_set {k. Some k \<in> set ks}"
  by (metis group_keys_def set_some_comprehension sorted_list_of_set_sort_remdups)

lemma group_keys_Nil_iff: "group_keys ks = [] \<longleftrightarrow> (\<forall>k \<in> set ks. k = None)"
proof -
  have "group_keys ks = [] \<longleftrightarrow> set (group_keys ks) = {}" by (simp only: set_empty)
  also have "\<dots> \<longleftrightarrow> (\<forall>k \<in> set ks. k = None)" by (auto simp: set_group_keys) (metis not_None_eq)
  finally show ?thesis .
qed

lemma group_keys_cong [mset_cong]:
  "set ks = set ks' \<Longrightarrow> group_keys ks = group_keys ks'"
  by (simp add: group_keys_sorted_list_of_set)

lemma mset_sort_values_desc [simp]: "mset (sort_values_desc f xs) = mset xs"
  and set_sort_values_desc [simp]: "set (sort_values_desc f xs) = set xs"
  and length_sort_values_desc [simp]: "length (sort_values_desc f xs) = length xs"
  by (simp_all add: sort_values_desc_def)

lemma sort_values_desc_Nil_iff [simp]: "sort_values_desc f xs = [] \<longleftrightarrow> xs = []"
  by (simp add: sort_values_desc_def flip: length_0_conv)

lemma mset_sort_values_asc [simp]: "mset (sort_values_asc f xs) = mset xs"
  and set_sort_values_asc [simp]: "set (sort_values_asc f xs) = set xs"
  by (simp_all add: sort_values_asc_def)

lemma sort_values_desc_nonincreasing:
  "nonincreasing (map f (sort_values_desc f xs))"
proof -
  have "sorted (map (\<lambda>x. - int (f x)) (sort_key (\<lambda>x. - int (f x)) xs))"
    by (rule sorted_sort_key)
  then show ?thesis
    by (simp add: nonincreasing_def sort_values_desc_def sorted_map sorted_wrt_map)
qed

lemma sort_values_asc_sorted: "sorted (map f (sort_values_asc f xs))"
  by (simp add: sort_values_asc_def)

lemma sort_values_desc_stable:
  "filter (\<lambda>y. f y = n) (sort_values_desc f xs) = filter (\<lambda>y. f y = n) xs"
proof -
  have "filter (\<lambda>y. - int (f y) = - int n) (sort_key (\<lambda>x. - int (f x)) xs)
      = filter (\<lambda>y. - int (f y) = - int n) xs"
    by (rule sort_key_stable)
  then show ?thesis by (simp add: sort_values_desc_def)
qed

lemma argmax_first_None_iff [simp]: "argmax_first f xs = None \<longleftrightarrow> xs = []"
  by (cases xs) auto

text \<open>
  \<open>idxmax\<close> scans left to right and replaces its candidate only on a strictly larger
  value, so it returns the first row whose value is the maximum.
\<close>

lemma fold_argmax_first_max:
  "fold (\<lambda>y m. if f m < f y then y else m) xs x
     = hd (filter (\<lambda>y. f y = Max (f ` set (x # xs))) (x # xs))"
proof (induction xs arbitrary: x)
  case Nil
  then show ?case by simp
next
  case (Cons y ys)
  let ?g = "\<lambda>y m. if f m < f y then y else m"
  show ?case
  proof (cases "f x < f y")
    case True
    define M where "M = Max (f ` set (y # ys))"
    have "f y \<le> M" unfolding M_def by (rule Max_ge) simp_all
    with True have "f x < M" by simp
    have eqM: "Max (f ` set (x # y # ys)) = max (f x) M"
      by (simp add: M_def)
    have "fold ?g (y # ys) x = fold ?g ys y" using True by simp
    also have "\<dots> = hd (filter (\<lambda>z. f z = M) (y # ys))" unfolding M_def by (rule Cons.IH)
    also have "\<dots> = hd (filter (\<lambda>z. f z = M) (x # y # ys))"
      using \<open>f x < M\<close> by auto
    also have "\<dots> = hd (filter (\<lambda>z. f z = Max (f ` set (x # y # ys))) (x # y # ys))"
      using \<open>f x < M\<close> by (simp only: eqM max_absorb2 less_imp_le)
    finally show ?thesis .
  next
    case False
    define M where "M = Max (f ` set (x # ys))"
    have "f x \<le> M" unfolding M_def by (rule Max_ge) simp_all
    with False have "f y \<le> M" by simp
    have "set (x # y # ys) = set (y # x # ys)" by auto
    then have eqM: "Max (f ` set (x # y # ys)) = max (f y) M"
      by (simp add: M_def)
    have "fold ?g (y # ys) x = fold ?g ys x" using False by simp
    also have "\<dots> = hd (filter (\<lambda>z. f z = M) (x # ys))" unfolding M_def by (rule Cons.IH)
    also have "\<dots> = hd (filter (\<lambda>z. f z = M) (x # y # ys))"
    proof (cases "f x = M")
      case True
      then show ?thesis by simp
    next
      case False
      with \<open>f x \<le> M\<close> \<open>\<not> f x < f y\<close> have "f y \<noteq> M" by simp
      with False show ?thesis by simp
    qed
    also have "\<dots> = hd (filter (\<lambda>z. f z = Max (f ` set (x # y # ys))) (x # y # ys))"
      using \<open>f y \<le> M\<close> by (simp only: eqM max_absorb2)
    finally show ?thesis .
  qed
qed

lemma argmax_first_eq:
  "xs \<noteq> [] \<Longrightarrow> argmax_first f xs = Some (hd (filter (\<lambda>y. f y = Max (f ` set xs)) xs))"
  by (cases xs) (simp_all add: fold_argmax_first_max)

lemma hd_nonincreasing_Max:
  assumes "nonincreasing (map f ys)" and "ys \<noteq> []"
  shows "f (hd ys) = Max (f ` set ys)"
proof (cases ys)
  case (Cons y ys')
  with assms(1) have "\<forall>z \<in> set ys'. f z \<le> f y"
    by (simp add: nonincreasing_def)
  with Cons show ?thesis by (auto intro!: Max_eqI [symmetric])
qed (use assms in simp)

lemma nonincreasing_hd_ge:
  "nonincreasing (map f ys) \<Longrightarrow> y \<in> set ys \<Longrightarrow> f y \<le> f (hd ys)"
  by (cases ys) (auto simp: nonincreasing_def)

lemma hd_sort_values_desc_first_max:
  assumes "xs \<noteq> []"
  shows "hd (sort_values_desc f xs) = hd (filter (\<lambda>y. f y = Max (f ` set xs)) xs)"
proof -
  let ?ys = "sort_values_desc f xs"
  let ?M = "Max (f ` set xs)"
  have ne: "?ys \<noteq> []" using assms by (metis length_0_conv length_sort_values_desc)
  have "f (hd ?ys) = ?M"
    using hd_nonincreasing_Max [OF sort_values_desc_nonincreasing ne] by simp
  then have "hd ?ys = hd (filter (\<lambda>y. f y = ?M) ?ys)"
    using ne by (cases ?ys) auto
  also have "\<dots> = hd (filter (\<lambda>y. f y = ?M) xs)"
    by (simp only: sort_values_desc_stable)
  finally show ?thesis .
qed

corollary argmax_first_hd_sort_values_desc:
  "xs \<noteq> [] \<Longrightarrow> argmax_first f xs = Some (hd (sort_values_desc f xs))"
  by (simp add: argmax_first_eq hd_sort_values_desc_first_max)

lemma argmax_first_max:
  "argmax_first f xs = Some m \<Longrightarrow> m \<in> set xs \<and> (\<forall>y \<in> set xs. f y \<le> f m)"
proof -
  assume a: "argmax_first f xs = Some m"
  then have ne: "xs \<noteq> []" by auto
  let ?M = "Max (f ` set xs)"
  have "\<exists>y \<in> set xs. f y = ?M"
    using ne by (metis (mono_tags, lifting) Max_in finite_imageI finite_set image_iff image_is_empty set_empty)
  then have "filter (\<lambda>y. f y = ?M) xs \<noteq> []" by (simp add: filter_empty_conv)
  then have "m \<in> set xs \<and> f m = ?M"
    using a ne by (auto simp: argmax_first_eq dest!: hd_in_set)
  then show ?thesis by simp
qed

lemma sum_list_sort_values_desc [simp]:
  "sum_list (map (g :: _ \<Rightarrow> 'b::comm_monoid_add) (sort_values_desc f xs)) = sum_list (map g xs)"
proof -
  have "sum_mset (mset (map g (sort_values_desc f xs))) = sum_mset (mset (map g xs))" by simp
  then show ?thesis by (simp only: sum_mset_sum_list)
qed

lemma distinct_map_sort_values_desc [simp]:
  "distinct (map g (sort_values_desc f xs)) \<longleftrightarrow> distinct (map g xs)"
  by (rule mset_eq_imp_distinct_iff) simp

text \<open>
  A stable sort commutes with a map that preserves the order of the keys: sorting by \<open>f\<close>
  and then mapping by \<open>h\<close> gives the same list as mapping first and sorting by \<open>g\<close>.
\<close>

lemma insort_key_map:
  assumes "\<forall>y \<in> set ys. f x \<le> f y \<longleftrightarrow> g (h x) \<le> g (h y)"
  shows "map h (insort_key f x ys) = insort_key g (h x) (map h ys)"
  using assms by (induction ys) auto

lemma sort_key_map:
  assumes "\<forall>x \<in> set xs. \<forall>y \<in> set xs. f x \<le> f y \<longleftrightarrow> g (h x) \<le> g (h y)"
  shows "map h (sort_key f xs) = sort_key g (map h xs)"
  using assms
proof (induction xs)
  case Nil
  then show ?case by simp
next
  case (Cons x xs)
  then have "map h (sort_key f xs) = sort_key g (map h xs)" by simp
  moreover have "\<forall>y \<in> set (sort_key f xs). f x \<le> f y \<longleftrightarrow> g (h x) \<le> g (h y)"
    using Cons.prems by simp
  then have "map h (insort_key f x (sort_key f xs)) = insort_key g (h x) (map h (sort_key f xs))"
    by (rule insort_key_map)
  ultimately show ?case by simp
qed

lemma sorted_split_filter:
  assumes "sorted (map g xs)" and "\<And>x y. P x \<Longrightarrow> \<not> P y \<Longrightarrow> g x < g y"
  shows "xs = filter P xs @ filter (\<lambda>x. \<not> P x) xs"
  using assms(1)
proof (induction xs)
  case (Cons x xs)
  show ?case
  proof (cases "P x")
    case True
    with Cons show ?thesis by simp
  next
    case False
    have "\<forall>y \<in> set xs. \<not> P y"
    proof
      fix y assume "y \<in> set xs"
      with Cons.prems have "g x \<le> g y" by simp
      then show "\<not> P y" using assms(2) [of y x] False by (auto simp: not_less [symmetric])
    qed
    with False show ?thesis by simp
  qed
qed simp

lemma sorted_map_Pair_False: "sorted (map (\<lambda>x. (False, f x)) xs) \<longleftrightarrow> sorted (map f xs)"
  by (induction xs) (auto simp: less_eq_prod_def)

lemma sum_list_indicator: "sum_list (map (\<lambda>x. if P x then 1 else 0) xs) = length (filter P xs)"
  by (induction xs) auto

lemma sorted_hd_le: "sorted (map f xs) \<Longrightarrow> y \<in> set xs \<Longrightarrow> f (hd xs) \<le> f y"
  by (cases xs) auto

section \<open>First-occurrence deduplication\<close>

lemma dedup_by_aux_fresh: "x \<in> set (dedup_by_aux f seen xs) \<Longrightarrow> f x \<notin> set seen"
proof (induction xs arbitrary: seen)
  case Nil
  then show ?case by simp
next
  case (Cons y ys)
  show ?case
  proof (cases "f y \<in> set seen")
    case True
    with Cons show ?thesis by simp
  next
    case False
    show ?thesis
    proof (cases "x = y")
      case True
      with False show ?thesis by simp
    next
      case ne: False
      with False Cons.prems have "x \<in> set (dedup_by_aux f (f y # seen) ys)" by simp
      then have "f x \<notin> set (f y # seen)" by (rule Cons.IH)
      then show ?thesis by simp
    qed
  qed
qed
lemma dedup_by_aux_keys: "f ` set (dedup_by_aux f seen xs) \<union> set seen = f ` set xs \<union> set seen"
proof (induction xs arbitrary: seen)
  case Nil
  then show ?case by simp
next
  case (Cons y ys)
  show ?case
  proof (cases "f y \<in> set seen")
    case True
    with Cons.IH [of seen] show ?thesis by auto
  next
    case False
    with Cons.IH [of "f y # seen"] show ?thesis by simp
  qed
qed

lemma dedup_by_aux_distinct: "distinct (map f (dedup_by_aux f seen xs))"
  by (induction xs arbitrary: seen) (auto dest: dedup_by_aux_fresh)


lemma dedup_by_aux_first:
  "x \<in> set (dedup_by_aux f seen xs) \<Longrightarrow> x = hd (filter (\<lambda>y. f y = f x) xs)"
proof (induction xs arbitrary: seen)
  case Nil
  then show ?case by simp
next
  case (Cons y ys)
  show ?case
  proof (cases "f y \<in> set seen")
    case True
    with Cons.prems have x: "x \<in> set (dedup_by_aux f seen ys)" by simp
    then have "f x \<notin> set seen" by (rule dedup_by_aux_fresh)
    with True have "f y \<noteq> f x" by auto
    with Cons.IH [OF x] show ?thesis by simp
  next
    case False
    show ?thesis
    proof (cases "x = y")
      case True
      then show ?thesis by simp
    next
      case ne: False
      with False Cons.prems have x: "x \<in> set (dedup_by_aux f (f y # seen) ys)" by simp
      then have "f x \<notin> set (f y # seen)" by (rule dedup_by_aux_fresh)
      then have "f y \<noteq> f x" by auto
      with Cons.IH [OF x] show ?thesis by simp
    qed
  qed
qed

lemma dedup_by_aux_snoc:
  "dedup_by_aux f seen (xs @ [x]) =
     dedup_by_aux f seen xs @ (if f x \<in> set seen \<union> f ` set xs then [] else [x])"
  by (induction xs arbitrary: seen) auto

lemma dedup_by_first_positions:
  "dedup_by f xs = map (\<lambda>i. xs ! i) (filter (\<lambda>i. f (xs ! i) \<notin> f ` set (take i xs)) [0..<length xs])"
proof (induction xs rule: rev_induct)
  case Nil
  then show ?case by (simp add: dedup_by_def)
next
  case (snoc x xs)
  have "map (\<lambda>i. (xs @ [x]) ! i) (filter (\<lambda>i. f ((xs @ [x]) ! i) \<notin> f ` set (take i (xs @ [x]))) [0..<length xs])
      = map (\<lambda>i. xs ! i) (filter (\<lambda>i. f (xs ! i) \<notin> f ` set (take i xs)) [0..<length xs])"
  proof -
    have "filter (\<lambda>i. f ((xs @ [x]) ! i) \<notin> f ` set (take i (xs @ [x]))) [0..<length xs]
        = filter (\<lambda>i. f (xs ! i) \<notin> f ` set (take i xs)) [0..<length xs]"
      by (rule filter_cong) (simp_all add: nth_append)
    moreover have "map (\<lambda>i. (xs @ [x]) ! i) (filter (\<lambda>i. f (xs ! i) \<notin> f ` set (take i xs)) [0..<length xs])
        = map (\<lambda>i. xs ! i) (filter (\<lambda>i. f (xs ! i) \<notin> f ` set (take i xs)) [0..<length xs])"
      by (rule map_cong) (simp_all add: nth_append)
    ultimately show ?thesis by simp
  qed
  with snoc.IH show ?case by (simp add: dedup_by_def dedup_by_aux_snoc)
qed
lemma dedup_by_aux_subseq: "subseq (dedup_by_aux f seen xs) xs"
  by (induction xs arbitrary: seen) auto

lemma dedup_by_aux_distinct_id:
  "distinct (map f xs) \<Longrightarrow> (\<forall>x \<in> set xs. f x \<notin> set seen) \<Longrightarrow> dedup_by_aux f seen xs = xs"
proof (induction xs arbitrary: seen)
  case Nil
  then show ?case by simp
next
  case (Cons y ys)
  then have "\<forall>x \<in> set ys. f x \<notin> set (f y # seen)" by (auto simp: image_iff)
  with Cons show ?case by simp
qed

lemma distinct_dedup_by: "distinct (map f (dedup_by f xs))"
  by (simp add: dedup_by_def dedup_by_aux_distinct)

lemma image_dedup_by [simp]: "f ` set (dedup_by f xs) = f ` set xs"
  using dedup_by_aux_keys [of f "[]" xs] by (simp add: dedup_by_def)

lemma dedup_by_first: "x \<in> set (dedup_by f xs) \<Longrightarrow> x = hd (filter (\<lambda>y. f y = f x) xs)"
  unfolding dedup_by_def by (rule dedup_by_aux_first)

lemma subseq_dedup_by: "subseq (dedup_by f xs) xs"
  by (simp add: dedup_by_def dedup_by_aux_subseq)

lemma dedup_by_distinct_id: "distinct (map f xs) \<Longrightarrow> dedup_by f xs = xs"
  by (simp add: dedup_by_def dedup_by_aux_distinct_id)

section \<open>Sorting ties and prefixes\<close>

lemma sort_values_desc_all_equal:
  "\<forall>x \<in> set xs. f x = n \<Longrightarrow> sort_values_desc f xs = xs"
proof -
  assume all: "\<forall>x \<in> set xs. f x = n"
  have "filter (\<lambda>y. f y = n) (sort_values_desc f xs) = filter (\<lambda>y. f y = n) xs"
    by (rule sort_values_desc_stable)
  moreover have "\<forall>x \<in> set (sort_values_desc f xs). f x = n" using all by simp
  ultimately show ?thesis using all by simp
qed

lemma nonincreasing_take_drop:
  assumes "nonincreasing (map f xs)" and "x \<in> set (take n xs)" and "y \<in> set (drop n xs)"
  shows "f y \<le> f x"
proof -
  have "sorted_wrt (\<lambda>a b. f b \<le> f a) (take n xs @ drop n xs)"
    using assms(1) by (simp add: nonincreasing_def sorted_wrt_map)
  then show ?thesis using assms(2,3) unfolding sorted_wrt_append by blast
qed

lemma sorted_take_drop:
  assumes "sorted (map f xs)" and "x \<in> set (take n xs)" and "y \<in> set (drop n xs)"
  shows "f x \<le> f y"
proof -
  have "sorted_wrt (\<lambda>a b. f a \<le> f b) (take n xs @ drop n xs)"
    using assms(1) by (simp add: sorted_map)
  then show ?thesis using assms(2,3) unfolding sorted_wrt_append by blast
qed

lemma count_list_distinct: "distinct xs \<Longrightarrow> k \<in> set xs \<Longrightarrow> count_list xs k = 1"
  by (induction xs) (auto simp: count_list_0_iff)

lemma value_counts_distinct: "distinct xs \<Longrightarrow> value_counts xs = map (\<lambda>k. (k, 1)) xs"
proof -
  assume d: "distinct xs"
  have "value_counts xs = sort_values_desc snd (map (\<lambda>k. (k, count_list xs k)) xs)"
    using d by (simp add: value_counts_def dedup_by_distinct_id)
  also have "map (\<lambda>k. (k, count_list xs k)) xs = map (\<lambda>k. (k, 1)) xs"
    by (rule map_cong) (simp_all add: count_list_distinct d)
  also have "sort_values_desc snd (map (\<lambda>k. (k, 1::nat)) xs) = map (\<lambda>k. (k, 1)) xs"
    by (rule sort_values_desc_all_equal [where n = 1]) simp
  finally show ?thesis .
qed

lemma value_counts_is_admissible: "value_counts_admissible xs (value_counts xs)"
proof -
  let ?g = "map (\<lambda>k. (k, count_list xs k)) (dedup_by id xs)"
  let ?s = "sort_values_desc snd ?g"
  have fst_pairs: "map fst (map (\<lambda>k. (k, h k)) ys) = ys" for h :: "'a \<Rightarrow> nat" and ys
    by (induction ys) simp_all
  have fg: "map fst ?g = dedup_by id xs" by (rule fst_pairs)
  have "distinct (map fst ?g)" unfolding fg using distinct_dedup_by [of id xs] by simp
  then have 1: "distinct (map fst ?s)" by simp
  have "set (map fst ?s) = set (map fst ?g)" by (simp only: set_map set_sort_values_desc)
  then have 2: "set (map fst ?s) = set xs" unfolding fg using image_dedup_by [of id xs] by simp
  have 3: "\<forall>p \<in> set ?s. snd p = count_list xs (fst p)" by (auto simp: set_sort_values_desc)
  have 4: "nonincreasing (map snd ?s)" by (rule sort_values_desc_nonincreasing)
  from 1 2 3 4 show ?thesis unfolding value_counts_admissible_def value_counts_def by blast
qed

lemma nonincreasing_const: "nonincreasing (map (\<lambda>_. c) xs)"
  by (induction xs) (simp_all add: nonincreasing_def)

lemma value_counts_admissible_distinct:
  assumes "distinct xs" and "distinct zs" and "set zs = set xs"
  shows "value_counts_admissible xs (map (\<lambda>k. (k, 1)) zs)"
  using assms by (auto simp: value_counts_admissible_def comp_def count_list_distinct nonincreasing_const)

lemma real_of_int_sum_list: "sum_list (map (\<lambda>x. real_of_int (f x)) xs) = real_of_int (sum_list (map f xs))"
  by (induction xs) simp_all

lemma set_take_drop_diff: "y \<in> set xs - set (take n xs) \<Longrightarrow> y \<in> set (drop n xs)"
  by (metis DiffE Un_iff append_take_drop_id set_append)

section \<open>Grouping partitions a table\<close>

text \<open>
  A \<open>groupby\<close> or a daily \<open>resample\<close> splits the rows by a key; summing a per-group
  aggregate over distinct keys gives the aggregate over the rows whose key is one of them.
  For a distinct count (\<open>nunique\<close>) this holds when the counted value determines the key.
\<close>

lemma sum_list_filter_disj:
  "(\<And>x. \<not> (P x \<and> Q x)) \<Longrightarrow>
     sum_list (map f (filter (\<lambda>x. P x \<or> Q x) xs))
       = sum_list (map f (filter P xs)) + sum_list (map (f :: _ \<Rightarrow> 'b::comm_monoid_add) (filter Q xs))"
  by (induction xs) (auto simp: add_ac)

lemma sum_list_partition:
  "distinct ks \<Longrightarrow>
     sum_list (map (\<lambda>k. sum_list (map f (filter (\<lambda>x. g x = Some k) xs))) ks)
       = sum_list (map (f :: _ \<Rightarrow> 'b::comm_monoid_add) (filter (\<lambda>x. \<exists>k \<in> set ks. g x = Some k) xs))"
proof (induction ks)
  case Nil
  then show ?case by simp
next
  case (Cons k ks)
  have "sum_list (map f (filter (\<lambda>x. g x = Some k \<or> (\<exists>k' \<in> set ks. g x = Some k')) xs))
      = sum_list (map f (filter (\<lambda>x. g x = Some k) xs))
        + sum_list (map f (filter (\<lambda>x. \<exists>k' \<in> set ks. g x = Some k') xs))"
    by (rule sum_list_filter_disj) (use Cons.prems in auto)
  with Cons show ?case by simp
qed

lemma sum_card_partition:
  assumes "distinct ks"
    and fd: "\<forall>x \<in> A. \<forall>y \<in> A. h x = h y \<longrightarrow> g x = g y"
    and "finite A"
  shows "sum_list (map (\<lambda>k. card (h ` {x \<in> A. g x = Some k})) ks)
           = card (h ` {x \<in> A. \<exists>k \<in> set ks. g x = Some k})"
  using assms(1)
proof (induction ks)
  case Nil
  then show ?case by simp
next
  case (Cons k ks)
  let ?B = "h ` {x \<in> A. g x = Some k}"
  let ?C = "h ` {x \<in> A. \<exists>k' \<in> set ks. g x = Some k'}"
  have split: "h ` {x \<in> A. \<exists>k' \<in> set (k # ks). g x = Some k'} = ?B \<union> ?C"
    by auto
  have "?B \<inter> ?C = {}"
    using fd Cons.prems by fastforce
  then have "card (?B \<union> ?C) = card ?B + card ?C"
    using \<open>finite A\<close> by (simp add: card_Un_disjoint)
  with Cons split show ?case by simp
qed

end
