(* ===== verification/Dataset.thy ===== *)
theory Dataset
  imports Prelude
begin

text \<open>
  The dataset side of the script (\<open>src/dashboard/dashboard.py\<close>, lines 65--95):
  one record per row of \<open>all_df\<close> with the columns the core reads, the calendar day of a
  timestamp (pandas' daily bins), the load step as a sort of \<open>all_df\<close> by the timestamp
  \<open>order_approved_at\<close>, NaT last (line 68; the theory \<open>Loading\<close> models the load as
  written, a sort of the text column before conversion, and proves it equal), the default date
  range of the date picker and the selection it starts with (lines 78--91) and the date
  filter that produces \<open>main_df\<close> (lines 94--95).
  CSV download and parsing are not modelled: the rows are the model's input.
\<close>

section \<open>Rows\<close>

text \<open>
  A row of \<open>all_df\<close>. Columns that can hold NaN after the joins of the notebook that
  built the CSV are \<open>option\<close>s. The other timestamp columns (delivery, estimate,
  purchase, shipping limit) are converted at lines 75--76 but never read by the core.
\<close>

record order_row =
  order_id :: string
  customer_id :: string
  customer_state :: "string option"
  product_id :: "string option"
  product_category_name_english :: "string option"
  payment_value :: "money option"
  order_approved_at :: "timestamp option"

section \<open>Calendar days\<close>

definition day_of :: "timestamp \<Rightarrow> day" where
  "day_of t = t div 86400"

definition midnight :: "day \<Rightarrow> timestamp" where
  "midnight d = d * 86400"

definition approved_day :: "order_row \<Rightarrow> day option" where
  "approved_day r = map_option day_of (order_approved_at r)"

section \<open>Loading: sort by approval time, NaT last (line 68)\<close>

definition nat_last_key :: "timestamp option \<Rightarrow> bool \<times> timestamp" where
  "nat_last_key t = (case t of None \<Rightarrow> (True, 0) | Some s \<Rightarrow> (False, s))"

definition load_all_df :: "order_row list \<Rightarrow> order_row list" where
  "load_all_df rows = sort_key (\<lambda>r. nat_last_key (order_approved_at r)) rows"

section \<open>Default range of the date picker (lines 78--79, 86--91)\<close>

definition approved_times :: "order_row list \<Rightarrow> timestamp list" where
  "approved_times rows = [t. Some t \<leftarrow> map order_approved_at rows]"

definition min_max_date :: "order_row list \<Rightarrow> (timestamp \<times> timestamp) option" where
  "min_max_date rows =
     (case approved_times rows of
        [] \<Rightarrow> None
      | t # ts \<Rightarrow> Some (fold min ts t, fold max ts t))"

text \<open>
  The picker's initial value, \<open>value=[min_date, max_date]\<close> (lines 86--91), as the
  list of the two dates it returns.
\<close>

definition default_selection :: "order_row list \<Rightarrow> day list" where
  "default_selection rows =
     (case min_max_date rows of None \<Rightarrow> [] | Some (lo, hi) \<Rightarrow> [day_of lo, day_of hi])"

section \<open>The date filter producing \<open>main_df\<close> (lines 94--95)\<close>

text \<open>
  \<open>all_df["order_approved_at"] >= str(start_date)\<close> compares a timestamp with the string
  \<open>"YYYY-MM-DD"\<close>, which pandas reads as midnight of that day; NaT compares false.
\<close>

definition in_date_range :: "day \<Rightarrow> day \<Rightarrow> order_row \<Rightarrow> bool" where
  "in_date_range s e r =
     (case order_approved_at r of
        None \<Rightarrow> False
      | Some t \<Rightarrow> midnight s \<le> t \<and> t \<le> midnight e)"

definition main_df :: "day \<Rightarrow> day \<Rightarrow> order_row list \<Rightarrow> order_row list" where
  "main_df s e rows = filter (in_date_range s e) rows"

section \<open>A sample of \<open>all_df\<close>\<close>

text \<open>
  The example of the spec, section 8: three orders approved on 2018-01-01 (day 17532) paying
  10, 20 and 30, one on 2018-01-02 paying 5; customers \<open>c1\<close> and \<open>c2\<close> in SP,
  \<open>c3\<close> in MA, and \<open>c1\<close> again for the last order, whose category is NaN.
\<close>

definition example_rows :: "order_row list" where
  "example_rows =
    [\<lparr>order_id = ''o1'', customer_id = ''c1'', customer_state = Some ''SP'',
      product_id = Some ''p1'', product_category_name_english = Some ''toys'',
      payment_value = Some 10, order_approved_at = Some 1514797200\<rparr>,
     \<lparr>order_id = ''o2'', customer_id = ''c2'', customer_state = Some ''SP'',
      product_id = Some ''p2'', product_category_name_english = Some ''toys'',
      payment_value = Some 20, order_approved_at = Some 1514800800\<rparr>,
     \<lparr>order_id = ''o3'', customer_id = ''c3'', customer_state = Some ''MA'',
      product_id = Some ''p3'', product_category_name_english = Some ''garden'',
      payment_value = Some 30, order_approved_at = Some 1514804400\<rparr>,
     \<lparr>order_id = ''o4'', customer_id = ''c1'', customer_state = Some ''SP'',
      product_id = Some ''p4'', product_category_name_english = None,
      payment_value = Some 5, order_approved_at = Some 1514887200\<rparr>]"

text \<open>
  A slice where two states tie: one customer in SP listed first, one in RJ listed second.
\<close>

definition tie_example_rows :: "order_row list" where
  "tie_example_rows =
    [\<lparr>order_id = ''o5'', customer_id = ''c5'', customer_state = Some ''SP'',
      product_id = Some ''p5'', product_category_name_english = Some ''toys'',
      payment_value = Some 7, order_approved_at = Some 1514797200\<rparr>,
     \<lparr>order_id = ''o6'', customer_id = ''c6'', customer_state = Some ''RJ'',
      product_id = Some ''p6'', product_category_name_english = Some ''garden'',
      payment_value = Some 8, order_approved_at = Some 1514800800\<rparr>]"

declare tie_example_rows_def [table_simps]
declare day_of_def [table_simps] midnight_def [table_simps] approved_day_def [table_simps]
  in_date_range_def [table_simps] main_df_def [table_simps] example_rows_def [table_simps]
  load_all_df_def [table_simps] nat_last_key_def [table_simps] Let_def [table_simps]

section \<open>Arithmetic of days\<close>

lemma day_of_lt_iff: "day_of t < e \<longleftrightarrow> t < midnight e"
proof -
  have "t = t div 86400 * 86400 + t mod 86400" by simp
  moreover have "0 \<le> t mod 86400" "t mod 86400 < 86400" by simp_all
  ultimately show ?thesis unfolding day_of_def midnight_def by linarith
qed

lemma midnight_le_iff: "midnight d \<le> t \<longleftrightarrow> d \<le> day_of t"
  using day_of_lt_iff [of t d] by linarith

lemma le_midnight_iff: "t \<le> midnight e \<longleftrightarrow> day_of t < e \<or> t = midnight e"
  using day_of_lt_iff [of t e] by auto

lemma day_of_midnight [simp]: "day_of (midnight d) = d"
  by (simp add: day_of_def midnight_def)

lemma in_date_range_iff:
  "in_date_range s e r \<longleftrightarrow>
     (\<exists>t. order_approved_at r = Some t \<and> s \<le> day_of t \<and> (day_of t < e \<or> t = midnight e))"
  by (auto simp: in_date_range_def midnight_le_iff le_midnight_iff split: option.splits)

lemma mset_load_all_df [simp]: "mset (load_all_df rows) = mset rows"
  and set_load_all_df [simp]: "set (load_all_df rows) = set rows"
  by (simp_all add: load_all_df_def)

lemma main_df_approved: "r \<in> set (main_df s e rows) \<Longrightarrow> order_approved_at r \<noteq> None"
  by (auto simp: main_df_def in_date_range_def split: option.splits)

lemma mset_main_df_load [simp]: "mset (main_df s e (load_all_df rows)) = mset (main_df s e rows)"
  by (simp add: main_df_def)

lemma approved_times_Some: "t \<in> set (approved_times rows) \<longleftrightarrow> (\<exists>r \<in> set rows. order_approved_at r = Some t)"
  by (force simp: approved_times_def)

lemma min_max_date_eq:
  "min_max_date rows =
     (if approved_times rows = [] then None
      else Some (Min (set (approved_times rows)), Max (set (approved_times rows))))"
  by (simp add: min_max_date_def split: list.split flip: Min.set_eq_fold Max.set_eq_fold)

lemma min_max_date_Some:
  assumes "min_max_date rows = Some (lo, hi)"
  shows "lo \<in> set (approved_times rows) \<and> hi \<in> set (approved_times rows)
         \<and> (\<forall>t \<in> set (approved_times rows). lo \<le> t \<and> t \<le> hi)"
proof -
  have ne: "approved_times rows \<noteq> []" and lo: "lo = Min (set (approved_times rows))"
    and hi: "hi = Max (set (approved_times rows))"
    using assms by (simp_all add: min_max_date_eq split: if_splits)
  then show ?thesis by simp
qed

lemma nat_last_key_order:
  "nat_last_key (Some t) < nat_last_key None \<and> (nat_last_key (Some t) \<le> nat_last_key (Some t') \<longleftrightarrow> t \<le> t')"
  by (simp add: nat_last_key_def)

section \<open>The date filter\<close>

text \<open>
  C13. A row is in \<open>main_df\<close> exactly when it has an approval time whose day is at least the
  start date and either before the end date or exactly midnight of the end date: the end
  date is exclusive except for that one instant, although the picker presents an inclusive
  range.
\<close>

theorem main_df_member:
  "r \<in> set (main_df s e rows) \<longleftrightarrow>
     r \<in> set rows \<and>
     (\<exists>t. order_approved_at r = Some t \<and> s \<le> day_of t \<and> (day_of t < e \<or> t = midnight e))"
  by (auto simp: main_df_def in_date_range_iff)

text \<open>
  C14. Selecting a single day (start date = end date) keeps only the rows approved exactly
  at midnight of that day.
\<close>

theorem main_df_single_day:
  "main_df d d rows = filter (\<lambda>r. order_approved_at r = Some (midnight d)) rows"
proof -
  have "in_date_range d d = (\<lambda>r. order_approved_at r = Some (midnight d))"
    by (rule ext) (auto simp: in_date_range_iff)
  then show ?thesis by (simp add: main_df_def)
qed

text \<open>
  C15. With the picker's default selection (the days of the earliest and latest approval
  times, lines 78--91), the slice holds every row with an approval time except those
  approved on the last day after midnight: the start bound never excludes a row, the end
  bound drops the last day.
\<close>

theorem default_range_slice:
  assumes "default_selection rows = [s, e]"
  shows "main_df s e rows = filter (\<lambda>r. \<exists>t. order_approved_at r = Some t \<and> (day_of t < e \<or> t = midnight e)) rows
         \<and> (\<exists>hi \<in> set (approved_times rows). e = day_of hi \<and> (\<forall>t \<in> set (approved_times rows). t \<le> hi))"
proof -
  obtain lo hi where mm: "min_max_date rows = Some (lo, hi)" and se: "s = day_of lo" "e = day_of hi"
    using assms by (auto simp: default_selection_def split: option.splits)
  note b = min_max_date_Some [OF mm]
  have "in_date_range s e r \<longleftrightarrow> (\<exists>t. order_approved_at r = Some t \<and> (day_of t < e \<or> t = midnight e))"
    if r: "r \<in> set rows" for r
  proof -
    have "s \<le> day_of t" if "order_approved_at r = Some t" for t
    proof -
      have "t \<in> set (approved_times rows)" using r that by (auto simp: approved_times_Some)
      with b have "lo \<le> t" by blast
      then show ?thesis using se by (simp add: day_of_def zdiv_mono1)
    qed
    then show ?thesis by (auto simp: in_date_range_iff)
  qed
  then have "main_df s e rows = filter (\<lambda>r. \<exists>t. order_approved_at r = Some t \<and> (day_of t < e \<or> t = midnight e)) rows"
    unfolding main_df_def by (rule filter_cong [OF refl])
  with b se show ?thesis by blast
qed

theorem default_range_slice_witness:
  "main_df 17532 17533 example_rows = take 3 example_rows"
proof -
  have "default_selection example_rows = [17532, 17533]"
    by (simp add: default_selection_def min_max_date_def approved_times_def example_rows_def day_of_def)
  from conjunct1 [OF default_range_slice [OF this]] show ?thesis by (simp add: table_simps)
qed


section \<open>The load step\<close>

text \<open>
  C16. Loading puts the rows with an approval time first, in order of time, and then the
  rows without one (NaT) in their original order, as \<open>sort_values\<close> with
  \<open>na_position='last'\<close> does; no row is lost or duplicated.
\<close>

theorem load_all_df_nat_last:
  "load_all_df rows = filter (\<lambda>r. order_approved_at r \<noteq> None) (load_all_df rows)
                      @ filter (\<lambda>r. order_approved_at r = None) rows
   \<and> sorted (map (\<lambda>r. the (order_approved_at r)) (filter (\<lambda>r. order_approved_at r \<noteq> None) (load_all_df rows)))
   \<and> mset (load_all_df rows) = mset rows"
proof (intro conjI)
  let ?f = "\<lambda>r. nat_last_key (order_approved_at r)"
  have s: "sorted (map ?f (load_all_df rows))" by (simp add: load_all_df_def)
  have k: "order_approved_at r = None \<longleftrightarrow> ?f r = (True, 0)" for r
    by (cases "order_approved_at r") (simp_all add: nat_last_key_def)
  have "filter (\<lambda>r. order_approved_at r = None) (load_all_df rows)
      = filter (\<lambda>r. ?f r = (True, 0)) (load_all_df rows)" by (simp only: k)
  also have "\<dots> = filter (\<lambda>r. ?f r = (True, 0)) rows" unfolding load_all_df_def by (rule sort_key_stable)
  also have "\<dots> = filter (\<lambda>r. order_approved_at r = None) rows" by (simp only: k)
  finally have nats: "filter (\<lambda>r. order_approved_at r = None) (load_all_df rows)
      = filter (\<lambda>r. order_approved_at r = None) rows" .
  have "load_all_df rows = filter (\<lambda>r. order_approved_at r \<noteq> None) (load_all_df rows)
      @ filter (\<lambda>r. \<not> order_approved_at r \<noteq> None) (load_all_df rows)"
    using s by (rule sorted_split_filter) (auto simp: nat_last_key_def)
  with nats show "load_all_df rows = filter (\<lambda>r. order_approved_at r \<noteq> None) (load_all_df rows)
      @ filter (\<lambda>r. order_approved_at r = None) rows" by simp
  have "sorted (map ?f (filter (\<lambda>r. order_approved_at r \<noteq> None) (load_all_df rows)))"
    using s by (rule sorted_filter)
  moreover have "map ?f (filter (\<lambda>r. order_approved_at r \<noteq> None) (load_all_df rows))
      = map (\<lambda>r. (False, the (order_approved_at r))) (filter (\<lambda>r. order_approved_at r \<noteq> None) (load_all_df rows))"
    by (rule map_cong) (auto simp: nat_last_key_def)
  ultimately show "sorted (map (\<lambda>r. the (order_approved_at r)) (filter (\<lambda>r. order_approved_at r \<noteq> None) (load_all_df rows)))"
    by (simp only: sorted_map_Pair_False)
  show "mset (load_all_df rows) = mset rows" by simp
qed

text \<open>
  C29. The picker's default range (lines 78--79, \<open>min()\<close> and \<open>max()\<close> of the approval
  column, NaT skipped) is spanned by two approval times of the table and contains every
  other one.
\<close>

theorem default_range_bounds:
  assumes "min_max_date rows = Some (lo, hi)"
  shows "lo \<in> set (approved_times rows) \<and> hi \<in> set (approved_times rows)
         \<and> (\<forall>t \<in> set (approved_times rows). lo \<le> t \<and> t \<le> hi)"
  using assms by (rule min_max_date_Some)

theorem default_range_bounds_witness:
  "1514797200 \<in> set (approved_times example_rows) \<and> 1514887200 \<in> set (approved_times example_rows)"
proof -
  have "min_max_date example_rows = Some (1514797200, 1514887200)"
    by (simp add: min_max_date_def approved_times_def example_rows_def)
  from default_range_bounds [OF this] show ?thesis by blast
qed

end
