(* ===== verification/Aggregator.thy ===== *)
theory Aggregator
  imports Dataset
begin

text \<open>
  The class \<open>DataAnalyzer\<close> of \<open>src/dashboard/dashboard.py\<close> (lines 8--45). It holds the
  filtered table \<open>main_df\<close> and derives four tables from it; each method is a function of
  the row list here. \<open>resample(rule='D', on='order_approved_at')\<close> bins rows by the calendar
  day of their approval time, from the first to the last such day, and emits every day of
  that span (empty days with a distinct count and a sum of 0); rows whose time is NaT fall
  in no bin. \<open>groupby\<close> drops NaN keys and sorts the keys. \<open>idxmax\<close> on an empty column
  raises \<open>ValueError\<close>.
\<close>

section \<open>Output tables\<close>

record daily_orders_row =
  do_date :: day
  order_count :: nat
  revenue :: money

record sum_spend_row =
  ss_date :: day
  total_spend :: money

record order_items_row =
  oi_category :: string
  product_count :: nat

record bystate_row =
  bs_state :: string
  customer_count :: nat

section \<open>Daily resampling\<close>

definition approved_days :: "order_row list \<Rightarrow> day list" where
  "approved_days rows = [d. Some d \<leftarrow> map approved_day rows]"

definition resample_days :: "order_row list \<Rightarrow> day list" where
  "resample_days rows =
     (case approved_days rows of
        [] \<Rightarrow> []
      | d # ds \<Rightarrow> [fold min ds d .. fold max ds d])"

definition rows_on :: "order_row list \<Rightarrow> day \<Rightarrow> order_row list" where
  "rows_on rows d = filter (\<lambda>r. approved_day r = Some d) rows"

section \<open>The four methods\<close>

definition create_daily_orders_df :: "order_row list \<Rightarrow> daily_orders_row list" where
  "create_daily_orders_df rows =
     map (\<lambda>d. \<lparr>do_date = d,
               order_count = nunique (map order_id (rows_on rows d)),
               revenue = sum_skipna (map payment_value (rows_on rows d))\<rparr>)
       (resample_days rows)"

definition create_sum_spend_df :: "order_row list \<Rightarrow> sum_spend_row list" where
  "create_sum_spend_df rows =
     map (\<lambda>d. \<lparr>ss_date = d,
               total_spend = sum_skipna (map payment_value (rows_on rows d))\<rparr>)
       (resample_days rows)"

definition order_items_groups :: "order_row list \<Rightarrow> order_items_row list" where
  "order_items_groups rows =
     map (\<lambda>c. \<lparr>oi_category = c,
               product_count = count_notna (map product_id
                 (filter (\<lambda>r. product_category_name_english r = Some c) rows))\<rparr>)
       (group_keys (map product_category_name_english rows))"

definition create_sum_order_items_df :: "order_row list \<Rightarrow> order_items_row list" where
  "create_sum_order_items_df rows = sort_values_desc product_count (order_items_groups rows)"

definition bystate_groups :: "order_row list \<Rightarrow> bystate_row list" where
  "bystate_groups rows =
     map (\<lambda>s. \<lparr>bs_state = s,
               customer_count = nunique (map customer_id
                 (filter (\<lambda>r. customer_state r = Some s) rows))\<rparr>)
       (group_keys (map customer_state rows))"

definition create_bystate_df :: "order_row list \<Rightarrow> py_error + (bystate_row list \<times> string)" where
  "create_bystate_df rows =
     (let g = bystate_groups rows in
      case argmax_first customer_count g of
        None \<Rightarrow> Inl ValueError
      | Some m \<Rightarrow> Inr (sort_values_desc customer_count g, bs_state m))"

section \<open>What the tables promise\<close>

text \<open>
  The abstract contract of the daily table, stated on the multiset of rows: for a day, the
  number of distinct orders approved that day and the sum of their non-NaN payments.
  \<open>pay\<close> is a row's contribution to a NaN-skipping sum.
\<close>

definition pay :: "order_row \<Rightarrow> money" where
  "pay r = (case payment_value r of None \<Rightarrow> 0 | Some v \<Rightarrow> v)"

definition daily_spec :: "order_row list \<Rightarrow> day \<Rightarrow> nat \<times> money" where
  "daily_spec rows d =
     (card (order_id ` {r \<in> set rows. approved_day r = Some d}),
      \<Sum>\<^sub># (image_mset pay (filter_mset (\<lambda>r. approved_day r = Some d) (mset rows))))"

declare approved_days_def [table_simps] resample_days_def [table_simps] rows_on_def [table_simps]
  create_daily_orders_df_def [table_simps] create_sum_spend_df_def [table_simps]
  order_items_groups_def [table_simps] create_sum_order_items_df_def [table_simps]
  bystate_groups_def [table_simps] create_bystate_df_def [table_simps]
  group_keys_def [table_simps] sort_values_desc_def [table_simps] upto.simps [table_simps]
  card_insert_if [table_simps]

section \<open>Lemmas on resampling\<close>

lemma set_approved_days: "set (approved_days rows) = {d. \<exists>r \<in> set rows. approved_day r = Some d}"
  by (force simp: approved_days_def)

lemma approved_days_Nil_iff: "approved_days rows = [] \<longleftrightarrow> (\<forall>r \<in> set rows. order_approved_at r = None)"
proof -
  have "set (approved_days rows) = {} \<longleftrightarrow> (\<forall>r \<in> set rows. approved_day r = None)"
    by (auto simp: set_approved_days) (metis not_None_eq)
  then show ?thesis by (simp add: approved_day_def)
qed

lemma resample_days_eq:
  "resample_days rows =
     (if approved_days rows = [] then []
      else [Min (set (approved_days rows)) .. Max (set (approved_days rows))])"
  by (simp add: resample_days_def split: list.split flip: Min.set_eq_fold Max.set_eq_fold)

lemma distinct_resample_days: "distinct (resample_days rows)"
  by (simp add: resample_days_def split: list.split)

lemma mem_resample_days:
  assumes "r \<in> set rows" and "approved_day r = Some d"
  shows "d \<in> set (resample_days rows)"
proof -
  have d: "d \<in> set (approved_days rows)"
    using assms by (auto simp: set_approved_days)
  then have "approved_days rows \<noteq> []" by auto
  with d show ?thesis by (simp add: resample_days_eq)
qed

lemma resample_days_Nil_iff: "resample_days rows = [] \<longleftrightarrow> approved_days rows = []"
proof
  assume empty: "resample_days rows = []"
  show "approved_days rows = []"
  proof (rule ccontr)
    assume "approved_days rows \<noteq> []"
    then obtain d where "d \<in> set (approved_days rows)" by (meson list.set_sel(1))
    then obtain r where "r \<in> set rows" and "approved_day r = Some d"
      by (auto simp: set_approved_days)
    then have "d \<in> set (resample_days rows)" by (rule mem_resample_days)
    with empty show False by simp
  qed
next
  assume "approved_days rows = []"
  then show "resample_days rows = []" by (simp add: resample_days_def)
qed

lemma rows_in_resample_days:
  "filter (\<lambda>r. \<exists>d \<in> set (resample_days rows). approved_day r = Some d) rows
     = filter (\<lambda>r. order_approved_at r \<noteq> None) rows"
  by (rule filter_cong) (auto simp: approved_day_def dest: mem_resample_days)

lemma sum_skipna_payment: "sum_skipna (map payment_value xs) = sum_list (map pay xs)"
  by (induction xs) (simp_all add: pay_def)

lemma sum_list_pay_mset: "sum_list (map pay xs) = \<Sum>\<^sub># (image_mset pay (mset xs))"
  by (induction xs) simp_all

lemma map_oi_category_groups: "map oi_category (order_items_groups rows) = group_keys (map product_category_name_english rows)"
  by (simp add: order_items_groups_def comp_def)

lemma map_bs_state_groups: "map bs_state (bystate_groups rows) = group_keys (map customer_state rows)"
  by (simp add: bystate_groups_def comp_def)

lemma bystate_groups_Nil_iff: "bystate_groups rows = [] \<longleftrightarrow> (\<forall>r \<in> set rows. customer_state r = None)"
  by (simp add: bystate_groups_def group_keys_Nil_iff)


lemma create_bystate_df_Inr:
  assumes "create_bystate_df rows = Inr (t, m)"
  shows "bystate_groups rows \<noteq> []" and "t = sort_values_desc customer_count (bystate_groups rows)"
    and "m = bs_state (hd t)"
proof -
  obtain x where x: "argmax_first customer_count (bystate_groups rows) = Some x"
    and t: "t = sort_values_desc customer_count (bystate_groups rows)" and m: "m = bs_state x"
    using assms by (auto simp: create_bystate_df_def Let_def split: option.splits)
  have ne: "bystate_groups rows \<noteq> []" using x by auto
  with x have "x = hd (sort_values_desc customer_count (bystate_groups rows))"
    by (simp add: argmax_first_hd_sort_values_desc)
  with ne t m show "bystate_groups rows \<noteq> []" and "t = sort_values_desc customer_count (bystate_groups rows)"
    and "m = bs_state (hd t)" by simp_all
qed

section \<open>Column totals\<close>

lemma revenue_column_sum:
  "sum_list (map revenue (create_daily_orders_df rows))
     = sum_skipna (map payment_value (filter (\<lambda>r. order_approved_at r \<noteq> None) rows))"
proof -
  have "sum_list (map revenue (create_daily_orders_df rows))
      = sum_list (map (\<lambda>d. sum_list (map pay (filter (\<lambda>r. approved_day r = Some d) rows)))
          (resample_days rows))"
    by (simp add: create_daily_orders_df_def comp_def rows_on_def sum_skipna_payment)
  also have "\<dots> = sum_list (map pay (filter (\<lambda>r. \<exists>d \<in> set (resample_days rows).
                                                 approved_day r = Some d) rows))"
    by (rule sum_list_partition [OF distinct_resample_days])
  finally show ?thesis by (simp add: rows_in_resample_days sum_skipna_payment)
qed

lemma product_count_column_sum:
  "sum_list (map product_count (create_sum_order_items_df rows))
     = length (filter (\<lambda>r. product_category_name_english r \<noteq> None \<and> product_id r \<noteq> None) rows)"
proof -
  let ?cat = product_category_name_english
  let ?ind = "\<lambda>r. if product_id r \<noteq> None then 1 else (0::nat)"
  let ?keys = "group_keys (map ?cat rows)"
  have "sum_list (map product_count (create_sum_order_items_df rows))
      = sum_list (map (\<lambda>c. sum_list (map ?ind (filter (\<lambda>r. ?cat r = Some c) rows))) ?keys)"
    by (simp add: create_sum_order_items_df_def order_items_groups_def comp_def count_notna_map
        sum_list_indicator)
  also have "\<dots> = sum_list (map ?ind (filter (\<lambda>r. \<exists>c \<in> set ?keys. ?cat r = Some c) rows))"
    by (rule sum_list_partition) (simp add: group_keys_sorted_distinct)
  also have "filter (\<lambda>r. \<exists>c \<in> set ?keys. ?cat r = Some c) rows = filter (\<lambda>r. ?cat r \<noteq> None) rows"
    by (rule filter_cong) force+
  finally show ?thesis by (simp add: sum_list_indicator)
qed

section \<open>Order independence\<close>

text \<open>
  Every table depends only on the multiset of input rows: the bins and the groups are sets,
  distinct counts depend on sets and sums and counts on multisets.
\<close>

lemma resample_days_cong:
  assumes "set rows = set rows'" shows "resample_days rows = resample_days rows'"
proof -
  have "set (approved_days rows) = set (approved_days rows')"
    using assms by (simp add: set_approved_days)
  then show ?thesis by (metis resample_days_eq set_empty)
qed

lemma create_daily_orders_df_mset [mset_cong]:
  assumes m: "mset rows = mset rows'"
  shows "create_daily_orders_df rows = create_daily_orders_df rows'"
proof -
  have s: "set rows = set rows'" using m by (rule mset_eq_setD)
  have "nunique (map order_id (rows_on rows d)) = nunique (map order_id (rows_on rows' d))" for d
    using s by (simp add: rows_on_def nunique_card)
  moreover have "sum_skipna (map payment_value (rows_on rows d))
      = sum_skipna (map payment_value (rows_on rows' d))" for d
    using m by (simp add: sum_skipna_payment sum_list_pay_mset rows_on_def)
  ultimately show ?thesis using resample_days_cong [OF s] by (simp add: create_daily_orders_df_def)
qed

lemma create_sum_spend_df_mset [mset_cong]:
  assumes m: "mset rows = mset rows'"
  shows "create_sum_spend_df rows = create_sum_spend_df rows'"
proof -
  have s: "set rows = set rows'" using m by (rule mset_eq_setD)
  have "sum_skipna (map payment_value (rows_on rows d))
      = sum_skipna (map payment_value (rows_on rows' d))" for d
    using m by (simp add: sum_skipna_payment sum_list_pay_mset rows_on_def)
  then show ?thesis using resample_days_cong [OF s] by (simp add: create_sum_spend_df_def)
qed

lemma create_sum_order_items_df_mset [mset_cong]:
  assumes m: "mset rows = mset rows'"
  shows "create_sum_order_items_df rows = create_sum_order_items_df rows'"
proof -
  have s: "set rows = set rows'" using m by (rule mset_eq_setD)
  have "length (filter P rows) = length (filter P rows')" for P
    using m by (metis mset_filter size_mset)
  then have "order_items_groups rows = order_items_groups rows'"
    using group_keys_cong [of "map product_category_name_english rows" "map product_category_name_english rows'"] s
    by (simp add: order_items_groups_def count_notna_map)
  then show ?thesis by (simp add: create_sum_order_items_df_def)
qed

lemma create_bystate_df_mset [mset_cong]:
  assumes m: "mset rows = mset rows'"
  shows "create_bystate_df rows = create_bystate_df rows'"
proof -
  have s: "set rows = set rows'" using m by (rule mset_eq_setD)
  then have "bystate_groups rows = bystate_groups rows'"
    using group_keys_cong [of "map customer_state rows" "map customer_state rows'"]
    by (simp add: bystate_groups_def nunique_card)
  then show ?thesis by (simp add: create_bystate_df_def)
qed

lemma distinct_bystate_states:
  assumes "create_bystate_df rows = Inr (t, m)"
  shows "distinct (map bs_state t)"
  using create_bystate_df_Inr(2) [OF assms] by (simp add: map_bs_state_groups group_keys_sorted_distinct)

section \<open>The daily orders table (lines 12--21)\<close>

text \<open>
  C3. The daily table implements its contract: its rows are exactly the days of the resampled
  span, in order, and each row's \<open>order_count\<close> and \<open>revenue\<close> are the number of distinct
  orders approved that day and the NaN-skipping sum of their payments.
\<close>

theorem daily_orders_refines:
  "map (\<lambda>x. (do_date x, order_count x, revenue x)) (create_daily_orders_df rows)
     = map (\<lambda>d. (d, daily_spec rows d)) (resample_days rows)"
  by (simp add: create_daily_orders_df_def daily_spec_def sum_skipna_payment sum_list_pay_mset
      rows_on_def mset_filter nunique_card)

text \<open>
  C4. Resampling fills gaps: the dates of the daily table are every day from the first to the
  last approval day of the input, one row per day, and the table is empty exactly when no row
  has an approval time.
\<close>

theorem daily_orders_dates:
  "map do_date (create_daily_orders_df rows)
     = (if \<forall>r \<in> set rows. order_approved_at r = None then []
        else [Min (set (approved_days rows)) .. Max (set (approved_days rows))])"
  by (simp add: create_daily_orders_df_def resample_days_eq approved_days_Nil_iff comp_def)

theorem daily_orders_dates_witness:
  "map do_date (create_daily_orders_df example_rows) = [17532 .. 17533]"
proof -
  have "approved_days example_rows = [17532, 17532, 17532, 17533]"
    by (simp add: table_simps)
  then show ?thesis using daily_orders_dates [of example_rows] by (simp add: example_rows_def)
qed

text \<open>
  C1. The revenue column sums to the total of the non-NaN payments of the rows that have an
  approval time: no payment is lost or counted twice by the daily bins.
\<close>

theorem daily_orders_revenue_total:
  "sum_list (map revenue (create_daily_orders_df rows))
     = sum_skipna (map payment_value (filter (\<lambda>r. order_approved_at r \<noteq> None) rows))"
  by (rule revenue_column_sum)

text \<open>
  C2. When every order has one approval time (as in the dataset, where \<open>order_id\<close>
  determines \<open>order_approved_at\<close>), the order counts of the daily table sum to the number of
  distinct orders with an approval time.
\<close>

theorem daily_orders_count_total:
  assumes "\<forall>r \<in> set rows. \<forall>r' \<in> set rows.
             order_id r = order_id r' \<longrightarrow> order_approved_at r = order_approved_at r'"
  shows "sum_list (map order_count (create_daily_orders_df rows))
     = nunique (map order_id (filter (\<lambda>r. order_approved_at r \<noteq> None) rows))"
proof -
  have fd: "\<forall>r \<in> set rows. \<forall>r' \<in> set rows. order_id r = order_id r' \<longrightarrow> approved_day r = approved_day r'"
    unfolding approved_day_def using assms by metis
  have "sum_list (map order_count (create_daily_orders_df rows))
      = sum_list (map (\<lambda>d. card (order_id ` {r \<in> set rows. approved_day r = Some d}))
          (resample_days rows))"
    by (simp add: create_daily_orders_df_def comp_def rows_on_def nunique_card)
  also have "\<dots> = card (order_id ` {r \<in> set rows. \<exists>d \<in> set (resample_days rows).
                                                  approved_day r = Some d})"
    by (rule sum_card_partition [OF distinct_resample_days fd finite_set])
  also have "\<dots> = card (set (map order_id (filter (\<lambda>r. \<exists>d \<in> set (resample_days rows).
                                                  approved_day r = Some d) rows)))"
    by (simp only: set_map set_filter)
  finally show ?thesis by (simp add: rows_in_resample_days nunique_card)
qed

theorem daily_orders_count_total_witness:
  "sum_list (map order_count (create_daily_orders_df example_rows))
     = nunique (map order_id (filter (\<lambda>r. order_approved_at r \<noteq> None) example_rows))
   \<and> nunique (map order_id (filter (\<lambda>r. order_approved_at r \<noteq> None) example_rows)) = 4"
proof -
  have h: "\<forall>r \<in> set example_rows. \<forall>r' \<in> set example_rows.
      order_id r = order_id r' \<longrightarrow> order_approved_at r = order_approved_at r'"
    by (simp add: example_rows_def)
  have n: "nunique (map order_id (filter (\<lambda>r. order_approved_at r \<noteq> None) example_rows)) = 4"
    by (simp add: table_simps)
  from daily_orders_count_total [OF h] n show ?thesis by simp
qed

text \<open>
  C5. The spend table is the revenue column of the daily table: same days, same sums.
\<close>

theorem sum_spend_matches_daily:
  "map (\<lambda>x. (ss_date x, total_spend x)) (create_sum_spend_df rows)
     = map (\<lambda>x. (do_date x, revenue x)) (create_daily_orders_df rows)"
  by (simp add: create_sum_spend_df_def create_daily_orders_df_def)

section \<open>The order items table (lines 32--37)\<close>

text \<open>
  C6. The order-items table is sorted by \<open>product_count\<close>, largest first.
\<close>

theorem order_items_sorted: "nonincreasing (map product_count (create_sum_order_items_df rows))"
  by (simp add: create_sum_order_items_df_def sort_values_desc_nonincreasing)

text \<open>
  C7. The product counts add up to the number of rows whose category and product id are both
  present: rows with a NaN category fall in no group and rows with a NaN product id are not
  counted by \<open>count()\<close>, so the total is the row count only when neither occurs.
\<close>

theorem order_items_total:
  "sum_list (map product_count (create_sum_order_items_df rows))
     = length (filter (\<lambda>r. product_category_name_english r \<noteq> None \<and> product_id r \<noteq> None) rows)"
  by (rule product_count_column_sum)

text \<open>
  C8. The order-items table has one row per category present in the input, and no other.
\<close>

theorem order_items_categories:
  "distinct (map oi_category (create_sum_order_items_df rows))
   \<and> set (map oi_category (create_sum_order_items_df rows))
       = {c. \<exists>r \<in> set rows. product_category_name_english r = Some c}"
proof
  show "distinct (map oi_category (create_sum_order_items_df rows))"
    by (simp add: create_sum_order_items_df_def map_oi_category_groups group_keys_sorted_distinct)
  have "set (map oi_category (create_sum_order_items_df rows))
      = set (map oi_category (order_items_groups rows))"
    by (simp add: create_sum_order_items_df_def)
  also have "\<dots> = {c. \<exists>r \<in> set rows. product_category_name_english r = Some c}"
    by (simp only: map_oi_category_groups set_group_keys) force
  finally show "set (map oi_category (create_sum_order_items_df rows))
       = {c. \<exists>r \<in> set rows. product_category_name_english r = Some c}" .
qed

section \<open>The customers-by-state table (lines 39--45)\<close>

text \<open>
  C9. \<open>create_bystate_df\<close> raises \<open>ValueError\<close> exactly when no row of the slice has a
  state (the grouping is empty and \<open>idxmax\<close> has nothing to return); when it returns, its
  table has exactly one row for each state that occurs in the slice.
\<close>

theorem bystate_df_outcome:
  "(create_bystate_df rows = Inl ValueError \<longleftrightarrow> (\<forall>r \<in> set rows. customer_state r = None))
   \<and> (\<forall>t m. create_bystate_df rows = Inr (t, m) \<longrightarrow>
        distinct (map bs_state t) \<and> set (map bs_state t) = {s. \<exists>r \<in> set rows. customer_state r = Some s})"
proof (intro conjI allI impI)
  show "create_bystate_df rows = Inl ValueError \<longleftrightarrow> (\<forall>r \<in> set rows. customer_state r = None)"
  proof (cases "bystate_groups rows = []")
    case True
    then show ?thesis using bystate_groups_Nil_iff [of rows] by (simp add: create_bystate_df_def)
  next
    case False
    then obtain m where "argmax_first customer_count (bystate_groups rows) = Some m"
      by (cases "argmax_first customer_count (bystate_groups rows)") auto
    with False show ?thesis using bystate_groups_Nil_iff [of rows] by (simp add: create_bystate_df_def)
  qed
next
  fix t m assume tm: "create_bystate_df rows = Inr (t, m)"
  show "distinct (map bs_state t)" using tm by (rule distinct_bystate_states)
  have "set (map bs_state t) = set (map bs_state (bystate_groups rows))"
    using create_bystate_df_Inr(2) [OF tm] by simp
  also have "\<dots> = {s. \<exists>r \<in> set rows. customer_state r = Some s}"
    by (force simp: map_bs_state_groups)
  finally show "set (map bs_state t) = {s. \<exists>r \<in> set rows. customer_state r = Some s}" .
qed

theorem bystate_df_outcome_witness:
  "create_bystate_df example_rows \<noteq> Inl ValueError
   \<and> set (map bs_state [\<lparr>bs_state = ''SP'', customer_count = 2\<rparr>, \<lparr>bs_state = ''MA'', customer_count = 1\<rparr>])
       = {s. \<exists>r \<in> set example_rows. customer_state r = Some s}"
proof -
  have ex: "create_bystate_df example_rows
      = Inr ([\<lparr>bs_state = ''SP'', customer_count = 2\<rparr>, \<lparr>bs_state = ''MA'', customer_count = 1\<rparr>], ''SP'')"
    by (simp add: table_simps)
  have some: "\<not> (\<forall>r \<in> set example_rows. customer_state r = None)" by (simp add: example_rows_def)
  note th = bystate_df_outcome [of example_rows]
  from conjunct1 [OF th] some have "create_bystate_df example_rows \<noteq> Inl ValueError" by blast
  moreover from conjunct2 [OF th] ex
  have "set (map bs_state [\<lparr>bs_state = ''SP'', customer_count = 2\<rparr>, \<lparr>bs_state = ''MA'', customer_count = 1\<rparr>])
      = {s. \<exists>r \<in> set example_rows. customer_state r = Some s}" by blast
  ultimately show ?thesis by blast
qed

text \<open>
  C10. On success the state table is sorted by customer count, largest first, and the most
  common state is the state of a row whose count is the maximum.
\<close>

theorem bystate_most_common_max:
  assumes "create_bystate_df rows = Inr (t, m)"
  shows "nonincreasing (map customer_count t)
         \<and> (\<exists>x \<in> set t. bs_state x = m \<and> (\<forall>y \<in> set t. customer_count y \<le> customer_count x))"
proof -
  note tm = create_bystate_df_Inr [OF assms]
  have sorted: "nonincreasing (map customer_count t)"
    using tm(2) by (simp add: sort_values_desc_nonincreasing)
  have "t \<noteq> []" using tm(1,2) by (metis length_0_conv length_sort_values_desc)
  then have "hd t \<in> set t" by simp
  moreover have "\<forall>y \<in> set t. customer_count y \<le> customer_count (hd t)"
    using nonincreasing_hd_ge [OF sorted] by blast
  ultimately show ?thesis using sorted tm(3) by blast
qed

text \<open>
  C11. Ties for the maximum are broken by the state's name: the most common state is the
  alphabetically first of the states with the largest count, whatever the input order.
\<close>

theorem bystate_ties_first_state:
  assumes "create_bystate_df rows = Inr (t, m)"
    and "y \<in> set t" and "customer_count y = customer_count (hd t)"
  shows "m \<le> bs_state y"
proof -
  note tm = create_bystate_df_Inr [OF assms(1)]
  let ?G = "bystate_groups rows"
  let ?M = "Max (customer_count ` set ?G)"
  have t_ne: "t \<noteq> []" using tm(1,2) by (metis length_0_conv length_sort_values_desc)
  have "customer_count (hd t) = Max (customer_count ` set t)"
    using tm(2) t_ne by (simp add: hd_nonincreasing_Max sort_values_desc_nonincreasing)
  then have y: "y \<in> set (filter (\<lambda>x. customer_count x = ?M) ?G)"
    using assms(2,3) tm(2) by simp
  have "sorted (map bs_state (filter (\<lambda>x. customer_count x = ?M) ?G))"
    by (rule sorted_filter) (simp add: map_bs_state_groups group_keys_sorted_distinct)
  then have "bs_state (hd (filter (\<lambda>x. customer_count x = ?M) ?G)) \<le> bs_state y"
    using y by (rule sorted_hd_le)
  then show ?thesis
    using tm(1,2,3) by (simp add: hd_sort_values_desc_first_max)
qed

text \<open>
  C12. When each customer id has one state, the customer counts add up to the number of
  distinct customers whose state is known.
\<close>

theorem bystate_customer_total:
  assumes fd: "\<forall>r \<in> set rows. \<forall>r' \<in> set rows.
                 customer_id r = customer_id r' \<longrightarrow> customer_state r = customer_state r'"
    and "create_bystate_df rows = Inr (t, m)"
  shows "sum_list (map customer_count t)
           = nunique (map customer_id (filter (\<lambda>r. customer_state r \<noteq> None) rows))"
proof -
  let ?keys = "group_keys (map customer_state rows)"
  have "sum_list (map customer_count t) = sum_list (map customer_count (bystate_groups rows))"
    using create_bystate_df_Inr(2) [OF assms(2)] by simp
  also have "\<dots> = sum_list (map (\<lambda>s. card (customer_id ` {r \<in> set rows. customer_state r = Some s})) ?keys)"
    by (simp add: bystate_groups_def comp_def nunique_card)
  also have "\<dots> = card (customer_id ` {r \<in> set rows. \<exists>s \<in> set ?keys. customer_state r = Some s})"
    by (rule sum_card_partition [OF _ fd finite_set]) (simp add: group_keys_sorted_distinct)
  also have "{r \<in> set rows. \<exists>s \<in> set ?keys. customer_state r = Some s} = {r \<in> set rows. customer_state r \<noteq> None}"
    by force
  finally show ?thesis by (simp add: Collect_conj_eq nunique_card)
qed
theorem bystate_most_common_max_witness:
  "nonincreasing (map customer_count
     [\<lparr>bs_state = ''SP'', customer_count = 2\<rparr>, \<lparr>bs_state = ''MA'', customer_count = 1\<rparr>])
   \<and> (\<exists>x \<in> set [\<lparr>bs_state = ''SP'', customer_count = 2\<rparr>, \<lparr>bs_state = ''MA'', customer_count = 1\<rparr>].
        bs_state x = ''SP''
        \<and> (\<forall>y \<in> set [\<lparr>bs_state = ''SP'', customer_count = 2\<rparr>, \<lparr>bs_state = ''MA'', customer_count = 1\<rparr>].
              customer_count y \<le> customer_count x))"
proof -
  have "create_bystate_df example_rows
     = Inr ([\<lparr>bs_state = ''SP'', customer_count = 2\<rparr>, \<lparr>bs_state = ''MA'', customer_count = 1\<rparr>], ''SP'')"
    by (simp add: table_simps)
  then show ?thesis by (rule bystate_most_common_max)
qed

theorem bystate_ties_first_state_witness:
  "''RJ'' \<le> bs_state \<lparr>bs_state = ''SP'', customer_count = 1\<rparr>"
proof -
  have "create_bystate_df tie_example_rows
     = Inr ([\<lparr>bs_state = ''RJ'', customer_count = 1\<rparr>, \<lparr>bs_state = ''SP'', customer_count = 1\<rparr>], ''RJ'')"
    by (simp add: table_simps)
  then show ?thesis by (rule bystate_ties_first_state) simp_all
qed

theorem bystate_customer_total_witness:
  "sum_list (map customer_count
     [\<lparr>bs_state = ''SP'', customer_count = 2\<rparr>, \<lparr>bs_state = ''MA'', customer_count = 1\<rparr>])
   = nunique (map customer_id (filter (\<lambda>r. customer_state r \<noteq> None) example_rows))"
proof -
  have fd: "\<forall>r \<in> set example_rows. \<forall>r' \<in> set example_rows.
      customer_id r = customer_id r' \<longrightarrow> customer_state r = customer_state r'"
    by (simp add: example_rows_def)
  have "create_bystate_df example_rows
     = Inr ([\<lparr>bs_state = ''SP'', customer_count = 2\<rparr>, \<lparr>bs_state = ''MA'', customer_count = 1\<rparr>], ''SP'')"
    by (simp add: table_simps)
  then show ?thesis by (rule bystate_customer_total [OF fd])
qed

end
