(* ===== verification/Dashboard.thy ===== *)
theory Dashboard
  imports Aggregator
begin

text \<open>
  The body of the Streamlit script (\<open>src/dashboard/dashboard.py\<close>, lines 78--203): the date
  picker's result is unpacked into two dates (line 86), the loaded table is filtered, the four
  tables of \<open>DataAnalyzer\<close> are computed (lines 97--103), and the page shows totals, means,
  the five most and least sold categories and the customers-by-state chart, whose most common
  state is recomputed with \<open>value_counts\<close> (line 196). A run is \<open>Inr\<close> of the values the page
  shows, or \<open>Inl\<close> of the exception that stops the script; Streamlit draws nothing after an
  exception, so the model keeps no partial page. The calls that only lay out or style the
  page are not modelled.
\<close>

section \<open>What the page shows\<close>

record dashboard_view =
  daily_line :: "(day \<times> nat) list"
  total_order :: nat
  total_revenue :: money
  spend_line :: "(day \<times> money) list"
  total_spend_sum :: money
  avg_spend :: "real option"
  total_items :: nat
  avg_items :: "real option"
  most_sold :: "order_items_row list"
  fewest_sold :: "order_items_row list"
  shown_state :: string
  state_bar_x :: "string list"
  state_bar_y :: "nat list"

section \<open>The script\<close>

definition date_input_unpack :: "day list \<Rightarrow> py_error + (day \<times> day)" where
  "date_input_unpack sel = (case sel of [s, e] \<Rightarrow> Inr (s, e) | _ \<Rightarrow> Inl ValueError)"

text \<open>
  One definition per section of the page, each with the values its lines compute: the daily
  orders (lines 113--123), the spend (lines 137--148), the order items (lines 163--179) and the
  state tab (lines 196--201), whose \<open>.index[0]\<close> raises on an empty table. The state tab
  is given the \<open>value_counts\<close> result it displays (\<open>state_panel_with\<close>), so that the
  theorems can range over every result pandas may return.
\<close>

definition daily_panel :: "daily_orders_row list \<Rightarrow> (day \<times> nat) list \<times> nat \<times> money" where
  "daily_panel daily =
     (map (\<lambda>x. (do_date x, order_count x)) daily, sum_list (map order_count daily),
      sum_list (map revenue daily))"

definition spend_panel :: "sum_spend_row list \<Rightarrow> (day \<times> money) list \<times> money \<times> real option" where
  "spend_panel spend =
     (map (\<lambda>x. (ss_date x, total_spend x)) spend, sum_list (map total_spend spend),
      series_mean (map (\<lambda>x. real_of_int (total_spend x)) spend))"

definition items_panel ::
  "order_items_row list \<Rightarrow> nat \<times> real option \<times> order_items_row list \<times> order_items_row list" where
  "items_panel items =
     (sum_list (map product_count items), series_mean (map (\<lambda>x. real (product_count x)) items),
      take 5 items, take 5 (sort_values_asc product_count items))"

definition state_panel_with ::
  "(string \<times> nat) list \<Rightarrow> bystate_row list \<Rightarrow> py_error + string \<times> string list \<times> nat list" where
  "state_panel_with counts state =
     (case index_first counts of
        Inl err \<Rightarrow> Inl err
      | Inr most_common_state \<Rightarrow> Inr (most_common_state, map fst counts, map customer_count state))"

definition state_panel :: "bystate_row list \<Rightarrow> py_error + string \<times> string list \<times> nat list" where
  "state_panel state = state_panel_with (value_counts (map bs_state state)) state"

definition render_view ::
  "daily_orders_row list \<Rightarrow> sum_spend_row list \<Rightarrow> order_items_row list \<Rightarrow> bystate_row list
     \<Rightarrow> py_error + dashboard_view" where
  "render_view daily spend items state =
     (case state_panel state of
        Inl err \<Rightarrow> Inl err
      | Inr (shown, xs, ys) \<Rightarrow>
          (case daily_panel daily of (dl, tord, trev) \<Rightarrow>
           case spend_panel spend of (sl, tsp, asp) \<Rightarrow>
           case items_panel items of (ti, ai, ms, fs) \<Rightarrow>
             Inr \<lparr>daily_line = dl, total_order = tord, total_revenue = trev,
                  spend_line = sl, total_spend_sum = tsp, avg_spend = asp,
                  total_items = ti, avg_items = ai, most_sold = ms, fewest_sold = fs,
                  shown_state = shown, state_bar_x = xs, state_bar_y = ys\<rparr>))"

definition run_dashboard :: "order_row list \<Rightarrow> day list \<Rightarrow> py_error + dashboard_view" where
  "run_dashboard all_rows sel =
     (case date_input_unpack sel of
        Inl err \<Rightarrow> Inl err
      | Inr (s, e) \<Rightarrow>
          (let main = main_df s e (load_all_df all_rows);
               daily = create_daily_orders_df main;
               spend = create_sum_spend_df main;
               items = create_sum_order_items_df main
           in case create_bystate_df main of
                Inl err \<Rightarrow> Inl err
              | Inr (state, _) \<Rightarrow> render_view daily spend items state))"

lemmas panel_defs = daily_panel_def spend_panel_def items_panel_def state_panel_with_def state_panel_def

declare date_input_unpack_def [table_simps] render_view_def [table_simps] panel_defs [table_simps]
  run_dashboard_def [table_simps] value_counts_def [table_simps] index_first_def [table_simps]
  series_mean_def [table_simps] dedup_by_def [table_simps] sort_values_asc_def [table_simps]

section \<open>Lemmas on a run\<close>

lemma run_dashboard_Inr:
  assumes "run_dashboard all_rows sel = Inr v"
  obtains s e t m where "sel = [s, e]"
    and "create_bystate_df (main_df s e all_rows) = Inr (t, m)"
    and "render_view (create_daily_orders_df (main_df s e all_rows))
           (create_sum_spend_df (main_df s e all_rows))
           (create_sum_order_items_df (main_df s e all_rows)) t = Inr v"
proof -
  obtain s e where sel: "sel = [s, e]"
    using assms by (auto simp: run_dashboard_def date_input_unpack_def split: list.splits)
  let ?main = "main_df s e (load_all_df all_rows)"
  have m: "mset ?main = mset (main_df s e all_rows)" by simp
  obtain t m where bs: "create_bystate_df ?main = Inr (t, m)"
    and rv: "render_view (create_daily_orders_df ?main) (create_sum_spend_df ?main)
               (create_sum_order_items_df ?main) t = Inr v"
    using assms sel by (auto simp: run_dashboard_def date_input_unpack_def Let_def split: sum.splits)
  show ?thesis
    using that [OF sel] bs rv
    by (simp only: create_bystate_df_mset [OF m] create_daily_orders_df_mset [OF m]
        create_sum_spend_df_mset [OF m] create_sum_order_items_df_mset [OF m])
qed

lemma render_view_Inr:
  assumes "create_bystate_df rows = Inr (t, m)" and "render_view daily spend items t = Inr v"
  shows "shown_state v = m"
    and "state_bar_x v = map bs_state t" and "state_bar_y v = map customer_count t"
    and "total_revenue v = sum_list (map revenue daily)"
    and "total_spend_sum v = sum_list (map total_spend spend)"
    and "total_items v = sum_list (map product_count items)"
    and "avg_spend v = series_mean (map (\<lambda>x. real_of_int (total_spend x)) spend)"
    and "avg_items v = series_mean (map (\<lambda>x. real (product_count x)) items)"
    and "most_sold v = take 5 items" and "fewest_sold v = take 5 (sort_values_asc product_count items)"
proof -
  note tm = create_bystate_df_Inr [OF assms(1)]
  have vc: "value_counts (map bs_state t) = map (\<lambda>k. (k, 1)) (map bs_state t)"
    using distinct_bystate_states [OF assms(1)] by (rule value_counts_distinct)
  have "t \<noteq> []" using tm(1,2) by (metis length_0_conv length_sort_values_desc)
  then have "index_first (map (\<lambda>k. (k, 1::nat)) (map bs_state t)) = Inr (bs_state (hd t))"
    by (cases t) (simp_all add: index_first_def)
  then have "index_first (value_counts (map bs_state t)) = Inr (bs_state (hd t))"
    by (simp only: vc)
  with assms(2) tm(3) show "shown_state v = m"
    and "state_bar_x v = map bs_state t" and "state_bar_y v = map customer_count t"
    and "total_revenue v = sum_list (map revenue daily)"
    and "total_spend_sum v = sum_list (map total_spend spend)"
    and "total_items v = sum_list (map product_count items)"
    and "avg_spend v = series_mean (map (\<lambda>x. real_of_int (total_spend x)) spend)"
    and "avg_items v = series_mean (map (\<lambda>x. real (product_count x)) items)"
    and "most_sold v = take 5 items" and "fewest_sold v = take 5 (sort_values_asc product_count items)"
    by (auto simp: render_view_def panel_defs vc comp_def)
qed

lemma run_dashboard_range_Inr:
  assumes "run_dashboard all_rows [s, e] = Inr v"
  obtains t m where "create_bystate_df (main_df s e all_rows) = Inr (t, m)"
    and "render_view (create_daily_orders_df (main_df s e all_rows))
           (create_sum_spend_df (main_df s e all_rows))
           (create_sum_order_items_df (main_df s e all_rows)) t = Inr v"
proof -
  obtain s' e' t m where sel: "[s, e] = [s', e']"
    and bs: "create_bystate_df (main_df s' e' all_rows) = Inr (t, m)"
    and rv: "render_view (create_daily_orders_df (main_df s' e' all_rows))
           (create_sum_spend_df (main_df s' e' all_rows))
           (create_sum_order_items_df (main_df s' e' all_rows)) t = Inr v"
    using run_dashboard_Inr [OF assms] by blast
  from sel have "s' = s" and "e' = e" by simp_all
  with bs rv that show ?thesis by blast
qed

lemma run_dashboard_slice_state:
  assumes "run_dashboard all_rows [s, e] = Inr v"
  shows "\<exists>r \<in> set (main_df s e all_rows). customer_state r \<noteq> None"
proof -
  obtain t m where "create_bystate_df (main_df s e all_rows) = Inr (t, m)"
    using run_dashboard_range_Inr [OF assms] by blast
  then have "bystate_groups (main_df s e all_rows) \<noteq> []" by (rule create_bystate_df_Inr(1))
  then show ?thesis by (simp add: bystate_groups_Nil_iff)
qed

lemma render_view_succeeds:
  assumes "create_bystate_df rows = Inr (t, m)"
  shows "\<exists>v. render_view daily spend items t = Inr v"
proof -
  note tm = create_bystate_df_Inr [OF assms]
  have "t \<noteq> []" using tm(1,2) by simp
  moreover have "value_counts (map bs_state t) = map (\<lambda>k. (k, 1)) (map bs_state t)"
    using distinct_bystate_states [OF assms] by (rule value_counts_distinct)
  ultimately have "\<exists>k. index_first (value_counts (map bs_state t)) = Inr k"
    by (cases t) (simp_all add: index_first_def)
  then show ?thesis by (auto simp: render_view_def panel_defs)
qed

lemma run_dashboard_Inr_iff:
  "(\<exists>v. run_dashboard all_rows [s, e] = Inr v) \<longleftrightarrow> (\<exists>r \<in> set (main_df s e all_rows). customer_state r \<noteq> None)"
proof
  assume "\<exists>v. run_dashboard all_rows [s, e] = Inr v"
  then show "\<exists>r \<in> set (main_df s e all_rows). customer_state r \<noteq> None"
    using run_dashboard_slice_state by blast
next
  assume "\<exists>r \<in> set (main_df s e all_rows). customer_state r \<noteq> None"
  then have "bystate_groups (main_df s e (load_all_df all_rows)) \<noteq> []"
    by (simp add: bystate_groups_Nil_iff main_df_def)
  then obtain m where am: "argmax_first customer_count (bystate_groups (main_df s e (load_all_df all_rows))) = Some m"
    by (cases "argmax_first customer_count (bystate_groups (main_df s e (load_all_df all_rows)))") auto
  let ?t = "sort_values_desc customer_count (bystate_groups (main_df s e (load_all_df all_rows)))"
  have bs: "create_bystate_df (main_df s e (load_all_df all_rows)) = Inr (?t, bs_state m)"
    using am by (simp add: create_bystate_df_def)
  obtain v where "render_view (create_daily_orders_df (main_df s e (load_all_df all_rows)))
      (create_sum_spend_df (main_df s e (load_all_df all_rows)))
      (create_sum_order_items_df (main_df s e (load_all_df all_rows))) ?t = Inr v"
    using render_view_succeeds [OF bs] by blast
  with bs show "\<exists>v. run_dashboard all_rows [s, e] = Inr v"
    by (simp add: run_dashboard_def date_input_unpack_def)
qed

section \<open>What a run shows\<close>

text \<open>
  C18. When no row of the selected slice has a customer state (in particular when the range
  contains no order), the script stops with \<open>ValueError\<close> from \<open>idxmax\<close> at line 42
  and the page shows nothing, although the spec asks for empty tables in that case.
\<close>

theorem dashboard_empty_slice_error:
  assumes "\<forall>r \<in> set (main_df s e all_rows). customer_state r = None"
  shows "run_dashboard all_rows [s, e] = Inl ValueError"
proof -
  have "bystate_groups (main_df s e (load_all_df all_rows)) = []"
    using assms by (simp add: bystate_groups_Nil_iff main_df_def)
  then show ?thesis
    by (simp add: run_dashboard_def date_input_unpack_def create_bystate_df_def Let_def)
qed

text \<open>
  C19. A date selection that is not a pair (the picker returns one date while the user is
  still choosing the range) makes the unpacking at line 86 raise \<open>ValueError\<close>.
\<close>

theorem dashboard_selection_error:
  assumes "length sel \<noteq> 2"
  shows "run_dashboard all_rows sel = Inl ValueError"
proof -
  have "date_input_unpack sel = Inl ValueError"
    using assms by (auto simp: date_input_unpack_def split: list.split)
  then show ?thesis by (simp add: run_dashboard_def)
qed

text \<open>
  C20. The state tab is not determined by what pandas guarantees. Line 196 recomputes the
  most common state, and line 200 takes the bar labels, from \<open>value_counts()\<close> of the state
  column of the sorted table, in which every state occurs once: all counts are 1, so any
  order of the states is a result pandas may return (its quicksort does not keep the order
  of equal counts beyond 16 values, and Brazil has 27 states). For every table of two or more
  states there is such a result under which the page shows a state other than the
  \<open>idxmax\<close> result of line 42 and pairs a bar label with another state's count.
\<close>

theorem state_chart_undetermined:
  assumes "create_bystate_df rows = Inr (t, m)" and "2 \<le> length t"
  shows "\<exists>ys shown xs hs. value_counts_admissible (map bs_state t) ys
           \<and> state_panel_with ys t = Inr (shown, xs, hs)
           \<and> shown \<noteq> m \<and> zip xs hs \<noteq> map (\<lambda>x. (bs_state x, customer_count x)) t"
proof -
  note tm = create_bystate_df_Inr [OF assms(1)]
  have d: "distinct (map bs_state t)" using assms(1) by (rule distinct_bystate_states)
  obtain x y t' where t: "t = x # y # t'" using assms(2) by (cases t rule: remdups_adj.cases) auto
  have xy: "bs_state y \<noteq> bs_state x" using d t by auto
  let ?zs = "rotate1 (map bs_state t)"
  let ?ys = "map (\<lambda>k. (k, 1::nat)) ?zs"
  have adm: "value_counts_admissible (map bs_state t) ?ys"
    using d by (intro value_counts_admissible_distinct) simp_all
  have panel: "state_panel_with ?ys t
      = Inr (bs_state y, map fst ?ys, map customer_count t)"
    using t by (simp add: state_panel_with_def index_first_def)
  have "m = bs_state x" using tm(3) t by simp
  then have "bs_state y \<noteq> m" using xy by simp
  moreover have "zip (map fst ?ys) (map customer_count t) \<noteq> map (\<lambda>x. (bs_state x, customer_count x)) t"
    using t xy by simp
  ultimately show ?thesis using adm panel by blast
qed

text \<open>
  C21. The totals on the page are totals of the selected slice: the revenue is the sum of
  its payments, the total spend equals the total revenue, and the total items is the number
  of its rows with a category and a product id.
\<close>

theorem dashboard_totals:
  assumes "run_dashboard all_rows [s, e] = Inr v"
  shows "total_revenue v = sum_skipna (map payment_value (main_df s e all_rows))
         \<and> total_spend_sum v = total_revenue v
         \<and> total_items v = length (filter (\<lambda>r. product_category_name_english r \<noteq> None
                                                \<and> product_id r \<noteq> None) (main_df s e all_rows))"
proof -
  let ?main = "main_df s e all_rows"
  obtain t m where bs: "create_bystate_df ?main = Inr (t, m)"
    and rv: "render_view (create_daily_orders_df ?main) (create_sum_spend_df ?main)
               (create_sum_order_items_df ?main) t = Inr v"
    using run_dashboard_range_Inr [OF assms] by blast
  note view = render_view_Inr [OF bs rv]
  have "filter (\<lambda>r. order_approved_at r \<noteq> None) ?main = ?main"
    by (auto simp: filter_id_conv dest: main_df_approved)
  then have rev: "total_revenue v = sum_skipna (map payment_value ?main)"
    using view(4) revenue_column_sum [of ?main] by simp
  have "map total_spend (create_sum_spend_df ?main) = map revenue (create_daily_orders_df ?main)"
    by (simp add: create_sum_spend_df_def create_daily_orders_df_def)
  then have "total_spend_sum v = total_revenue v" using view(4,5) by simp
  moreover have "total_items v = length (filter (\<lambda>r. product_category_name_english r \<noteq> None
                                                \<and> product_id r \<noteq> None) ?main)"
    using view(6) product_count_column_sum [of ?main] by simp
  ultimately show ?thesis using rev by simp
qed

text \<open>
  C22. On a page that renders, the average spend is a number (never NaN): the total spend
  divided by the number of days of the resampled span, empty days included. The average
  items is NaN exactly when no row of the slice has a category.
\<close>

theorem dashboard_means:
  assumes "run_dashboard all_rows [s, e] = Inr v"
  shows "avg_spend v = Some (real_of_int (total_spend_sum v) / real (length (spend_line v)))
         \<and> (avg_items v = None \<longleftrightarrow>
              (\<forall>r \<in> set (main_df s e all_rows). product_category_name_english r = None))"
proof -
  let ?main = "main_df s e all_rows"
  obtain t m where bs: "create_bystate_df ?main = Inr (t, m)"
    and rv: "render_view (create_daily_orders_df ?main) (create_sum_spend_df ?main)
               (create_sum_order_items_df ?main) t = Inr v"
    using run_dashboard_range_Inr [OF assms] by blast
  note view = render_view_Inr [OF bs rv]
  obtain r where "r \<in> set ?main" using run_dashboard_slice_state [OF assms] by blast
  then have "approved_days ?main \<noteq> []"
    using main_df_approved by (auto simp: approved_days_Nil_iff)
  then have "create_sum_spend_df ?main \<noteq> []"
    by (simp add: create_sum_spend_df_def resample_days_Nil_iff)
  moreover have "spend_line v = map (\<lambda>x. (ss_date x, total_spend x)) (create_sum_spend_df ?main)"
    using rv bs by (auto simp: render_view_def panel_defs split: sum.splits)
  ultimately have spend: "avg_spend v = Some (real_of_int (total_spend_sum v) / real (length (spend_line v)))"
    using view(5,7) by (simp add: series_mean_def real_of_int_sum_list)
  have "create_sum_order_items_df ?main = [] \<longleftrightarrow> (\<forall>r \<in> set ?main. product_category_name_english r = None)"
    by (simp add: create_sum_order_items_df_def order_items_groups_def group_keys_Nil_iff)
  then have "avg_items v = None \<longleftrightarrow> (\<forall>r \<in> set ?main. product_category_name_english r = None)"
    using view(8) by (simp add: series_mean_def)
  with spend show ?thesis by simp
qed

text \<open>
  C23. The "most sold" chart shows at most five categories, none with a smaller count than
  a category left out; the "fewest sold" chart shows at most five, none with a larger count
  than a category left out.
\<close>

theorem dashboard_top_bottom:
  assumes "run_dashboard all_rows [s, e] = Inr v"
  shows "set (most_sold v) \<subseteq> set (create_sum_order_items_df (main_df s e all_rows))
     \<and> length (most_sold v) = min 5 (length (create_sum_order_items_df (main_df s e all_rows)))
     \<and> (\<forall>x \<in> set (most_sold v).
          \<forall>y \<in> set (create_sum_order_items_df (main_df s e all_rows)) - set (most_sold v).
            product_count y \<le> product_count x)
     \<and> set (fewest_sold v) \<subseteq> set (create_sum_order_items_df (main_df s e all_rows))
     \<and> length (fewest_sold v) = min 5 (length (create_sum_order_items_df (main_df s e all_rows)))
     \<and> (\<forall>x \<in> set (fewest_sold v).
          \<forall>y \<in> set (create_sum_order_items_df (main_df s e all_rows)) - set (fewest_sold v).
            product_count x \<le> product_count y)"
proof -
  let ?T = "create_sum_order_items_df (main_df s e all_rows)"
  let ?A = "sort_values_asc product_count ?T"
  obtain t m where bs: "create_bystate_df (main_df s e all_rows) = Inr (t, m)"
    and rv: "render_view (create_daily_orders_df (main_df s e all_rows))
               (create_sum_spend_df (main_df s e all_rows)) ?T t = Inr v"
    using run_dashboard_range_Inr [OF assms] by blast
  note view = render_view_Inr [OF bs rv]
  have desc: "nonincreasing (map product_count ?T)"
    by (simp add: create_sum_order_items_df_def sort_values_desc_nonincreasing)
  have asc: "sorted (map product_count ?A)" by (rule sort_values_asc_sorted)
  have top: "\<forall>x \<in> set (take 5 ?T). \<forall>y \<in> set ?T - set (take 5 ?T). product_count y \<le> product_count x"
  proof (intro ballI)
    fix x y assume x: "x \<in> set (take 5 ?T)" and y: "y \<in> set ?T - set (take 5 ?T)"
    from y have "y \<in> set (drop 5 ?T)" by (rule set_take_drop_diff)
    with desc x show "product_count y \<le> product_count x" by (rule nonincreasing_take_drop)
  qed
  have "\<forall>x \<in> set (take 5 ?A). \<forall>y \<in> set ?A - set (take 5 ?A). product_count x \<le> product_count y"
  proof (intro ballI)
    fix x y assume x: "x \<in> set (take 5 ?A)" and y: "y \<in> set ?A - set (take 5 ?A)"
    from y have "y \<in> set (drop 5 ?A)" by (rule set_take_drop_diff)
    with asc x show "product_count x \<le> product_count y" by (rule sorted_take_drop)
  qed
  then have bottom: "\<forall>x \<in> set (take 5 ?A). \<forall>y \<in> set ?T - set (take 5 ?A). product_count x \<le> product_count y"
    by (simp only: set_sort_values_asc)
  have len: "length ?A = length ?T" by (simp add: sort_values_asc_def)
  have sub: "set (take 5 ?A) \<subseteq> set ?T" "set (take 5 ?T) \<subseteq> set ?T"
    using set_take_subset [of 5 ?A] set_take_subset [of 5 ?T] by simp_all
  show ?thesis
    unfolding view(9,10) using top bottom sub len by (simp add: min.commute)
qed

text \<open>
  C28. For a picked range, the page renders exactly when the filtered slice has a row with a
  customer state: the state table is the only step of a run that can raise on a well-formed
  selection, and \<open>.index[0]\<close> of line 196 never does once that table is non-empty.
\<close>

theorem dashboard_renders_iff:
  "(\<exists>v. run_dashboard all_rows [s, e] = Inr v) \<longleftrightarrow> (\<exists>r \<in> set (main_df s e all_rows). customer_state r \<noteq> None)"
  by (rule run_dashboard_Inr_iff)

theorem dashboard_empty_slice_error_witness:
  "run_dashboard example_rows [17540, 17541] = Inl ValueError"
proof -
  have "main_df 17540 17541 example_rows = []" by (simp add: table_simps)
  then show ?thesis by (intro dashboard_empty_slice_error) simp
qed

theorem dashboard_selection_error_witness:
  "run_dashboard example_rows [17532] = Inl ValueError"
  by (rule dashboard_selection_error) simp

lemma example_run:
  "run_dashboard example_rows [17532, 17533] = Inr (projr (run_dashboard example_rows [17532, 17533]))"
  by (simp add: table_simps)

theorem state_chart_undetermined_witness:
  "\<exists>ys shown xs hs. value_counts_admissible [''SP'', ''MA''] ys
     \<and> state_panel_with ys [\<lparr>bs_state = ''SP'', customer_count = 2\<rparr>, \<lparr>bs_state = ''MA'', customer_count = 1\<rparr>]
         = Inr (shown, xs, hs)
     \<and> shown \<noteq> ''SP''
     \<and> zip xs hs \<noteq> [(''SP'', 2), (''MA'', 1)]"
proof -
  have "create_bystate_df example_rows
      = Inr ([\<lparr>bs_state = ''SP'', customer_count = 2\<rparr>, \<lparr>bs_state = ''MA'', customer_count = 1\<rparr>], ''SP'')"
    by (simp add: table_simps)
  from state_chart_undetermined [OF this] show ?thesis by simp
qed

theorem dashboard_totals_witness:
  "total_revenue (projr (run_dashboard example_rows [17532, 17533]))
     = sum_skipna (map payment_value (main_df 17532 17533 example_rows))
   \<and> total_spend_sum (projr (run_dashboard example_rows [17532, 17533]))
     = total_revenue (projr (run_dashboard example_rows [17532, 17533]))
   \<and> total_items (projr (run_dashboard example_rows [17532, 17533]))
     = length (filter (\<lambda>r. product_category_name_english r \<noteq> None \<and> product_id r \<noteq> None)
                 (main_df 17532 17533 example_rows))"
  by (rule dashboard_totals [OF example_run])

theorem dashboard_means_witness:
  "avg_spend (projr (run_dashboard example_rows [17532, 17533]))
     = Some (real_of_int (total_spend_sum (projr (run_dashboard example_rows [17532, 17533])))
             / real (length (spend_line (projr (run_dashboard example_rows [17532, 17533])))))
   \<and> (avg_items (projr (run_dashboard example_rows [17532, 17533])) = None
      \<longleftrightarrow> (\<forall>r \<in> set (main_df 17532 17533 example_rows). product_category_name_english r = None))"
  by (rule dashboard_means [OF example_run])

theorem dashboard_top_bottom_witness:
  "set (most_sold (projr (run_dashboard example_rows [17532, 17533])))
       \<subseteq> set (create_sum_order_items_df (main_df 17532 17533 example_rows))
     \<and> length (most_sold (projr (run_dashboard example_rows [17532, 17533])))
       = min 5 (length (create_sum_order_items_df (main_df 17532 17533 example_rows)))
     \<and> set (fewest_sold (projr (run_dashboard example_rows [17532, 17533])))
       \<subseteq> set (create_sum_order_items_df (main_df 17532 17533 example_rows))"
  using dashboard_top_bottom [OF example_run] by blast

end
