(* ===== verification/GeoOverlay.thy ===== *)
theory GeoOverlay
  imports Prelude
begin

text \<open>
  The geolocation view of \<open>src/dashboard/dashboard.py\<close>: the customer locations are loaded
  and deduplicated by \<open>customer_unique_id\<close>, first occurrence kept (line 73), and the class
  \<open>BrazilMapPlotter\<close> (lines 47--60) draws them as a scatter plot, hides the axes and lays a
  map of Brazil over the plot, stretched to a fixed longitude/latitude box. The model returns
  the drawing commands \<open>plot\<close> issues, in order; the image itself (downloaded with
  \<open>urllib\<close> and decoded by \<open>imread\<close>) is a parameter of any type.
\<close>

section \<open>Data and commands\<close>

record geo_row =
  customer_unique_id :: string
  geolocation_lng :: real
  geolocation_lat :: real

datatype 'img draw_cmd =
    Scatter "(real \<times> real) list" "real \<times> real" real real string
      \<comment> \<open>points (x = longitude, y = latitude), figsize, alpha, marker size, colour\<close>
  | AxisOff
  | ImShow 'img "real \<times> real \<times> real \<times> real" \<comment> \<open>extent: left, right, bottom, top\<close>
  | ShowPyplot

definition drop_duplicates_geo :: "geo_row list \<Rightarrow> geo_row list" where
  "drop_duplicates_geo geolocation = dedup_by customer_unique_id geolocation"

definition brazil_extent :: "real \<times> real \<times> real \<times> real" where
  "brazil_extent = (-73.98283055, -33.8, -33.75116944, 5.4)"

definition plot :: "geo_row list \<Rightarrow> 'img \<Rightarrow> 'img draw_cmd list" where
  "plot data brazil =
     [Scatter (map (\<lambda>g. (geolocation_lng g, geolocation_lat g)) data) (10, 10) 0.3 0.3 ''green'',
      AxisOff,
      ImShow brazil brazil_extent,
      ShowPyplot]"

fun markers :: "'img draw_cmd list \<Rightarrow> (real \<times> real) list" where
  "markers [] = []"
| "markers (Scatter pts _ _ _ _ # cs) = pts @ markers cs"
| "markers (_ # cs) = markers cs"

text \<open>
  A sample of \<open>geolocation\<close>: customer \<open>u1\<close> in Sao Paulo, \<open>u2\<close> in Rio de Janeiro, and
  \<open>u1\<close> again at a second address.
\<close>

definition example_geo :: "geo_row list" where
  "example_geo =
    [\<lparr>customer_unique_id = ''u1'', geolocation_lng = -46.63, geolocation_lat = -23.55\<rparr>,
     \<lparr>customer_unique_id = ''u2'', geolocation_lng = -43.2, geolocation_lat = -22.9\<rparr>,
     \<lparr>customer_unique_id = ''u1'', geolocation_lng = -46.7, geolocation_lat = -23.6\<rparr>]"

section \<open>Lemmas\<close>

lemma markers_plot: "markers (plot data img) = map (\<lambda>g. (geolocation_lng g, geolocation_lat g)) data"
  by (simp add: plot_def)

lemma length_markers_plot_dedup:
  "length (markers (plot (drop_duplicates_geo gs) img)) = card (customer_unique_id ` set gs)"
proof -
  have d: "distinct (map customer_unique_id (drop_duplicates_geo gs))"
    by (simp add: drop_duplicates_geo_def distinct_dedup_by)
  have "length (drop_duplicates_geo gs) = card (customer_unique_id ` set (drop_duplicates_geo gs))"
    using distinct_card [OF d] by simp
  also have "\<dots> = card (customer_unique_id ` set gs)"
    by (simp add: drop_duplicates_geo_def)
  finally show ?thesis by (simp add: markers_plot)
qed

section \<open>Properties\<close>

text \<open>
  C24. After \<open>drop_duplicates(subset='customer_unique_id')\<close> every customer has exactly one
  location row, and no customer of the input is lost.
\<close>

theorem geo_dedup_unique:
  "distinct (map customer_unique_id (drop_duplicates_geo gs))
   \<and> customer_unique_id ` set (drop_duplicates_geo gs) = customer_unique_id ` set gs"
  by (simp add: drop_duplicates_geo_def distinct_dedup_by)

text \<open>
  C25. The row kept for a customer is the first row of that customer in the input.
\<close>

theorem geo_dedup_first:
  "g \<in> set (drop_duplicates_geo gs)
     \<Longrightarrow> g = hd (filter (\<lambda>h. customer_unique_id h = customer_unique_id g) gs)"
  unfolding drop_duplicates_geo_def by (rule dedup_by_first)

text \<open>
  C26. \<open>drop_duplicates(subset='customer_unique_id')\<close> keeps exactly the rows whose
  customer does not occur at an earlier position, in their input order (pandas'
  \<open>keep='first'\<close>).
\<close>

theorem geo_dedup_keep_first:
  "drop_duplicates_geo gs =
     map (\<lambda>i. gs ! i)
       (filter (\<lambda>i. customer_unique_id (gs ! i) \<notin> customer_unique_id ` set (take i gs)) [0..<length gs])"
  unfolding drop_duplicates_geo_def by (rule dedup_by_first_positions)

text \<open>
  C27. The map draws one marker per distinct customer, each at the longitude and latitude of
  one of that customer's input rows.
\<close>

theorem plot_one_marker_per_customer:
  "length (markers (plot (drop_duplicates_geo gs) img)) = card (customer_unique_id ` set gs)
   \<and> set (markers (plot (drop_duplicates_geo gs) img))
       \<subseteq> (\<lambda>g. (geolocation_lng g, geolocation_lat g)) ` set gs"
proof -
  have "set (drop_duplicates_geo gs) \<subseteq> set gs"
    by (metis drop_duplicates_geo_def subseq_dedup_by subseq_order.dual_order.trans subseq_singleton_left
        subsetI)
  then show ?thesis using length_markers_plot_dedup [of gs img] by (auto simp: markers_plot)
qed

theorem geo_dedup_first_witness:
  "example_geo ! 0 = hd (filter (\<lambda>h. customer_unique_id h = customer_unique_id (example_geo ! 0)) example_geo)"
proof -
  have "example_geo ! 0 \<in> set (drop_duplicates_geo example_geo)"
    by (simp add: example_geo_def drop_duplicates_geo_def dedup_by_def)
  then show ?thesis by (rule geo_dedup_first)
qed

end
