(* ===== verification/Timestamp.thy ===== *)
theory Timestamp
  imports Dataset
begin

text \<open>
  The datetime conversion of \<open>src/dashboard/dashboard.py\<close>, lines 65--76: the CSV holds
  \<open>order_approved_at\<close> as text, which line 68 sorts as strings and lines 75--76 convert with
  \<open>pd.to_datetime\<close>. This theory models the conversion for the text forms the dataset
  and the date filter use, \<open>YYYY-MM-DD HH:MM:SS\<close> (as pandas writes a timestamp column
  to CSV) and \<open>YYYY-MM-DD\<close> (as \<open>str(date)\<close> prints a date, lines 94--95), on the
  proleptic Gregorian calendar, with pandas' nanosecond bounds read at one-second
  resolution (\<open>ts_min\<close>, \<open>ts_max\<close>: \<open>OutOfBoundsDatetime\<close> outside them). Dates are
  converted to day numbers in closed form (\<open>days_from_civil\<close>) and back by a loop over
  years (\<open>year_of\<close>, a \<^theory_text>\<open>function\<close> with a termination proof) and a scan over
  months (\<open>month_of\<close>). Any other text is rejected (\<open>None\<close>), which the load step turns
  into the \<open>ValueError\<close> pandas raises with \<open>errors='raise'\<close>.
\<close>

section \<open>The proleptic Gregorian calendar\<close>


definition is_leap :: "int \<Rightarrow> bool" where
  "is_leap y = (4 dvd y \<and> \<not> 100 dvd y \<or> 400 dvd y)"

definition year_len :: "int \<Rightarrow> int" where
  "year_len y = (if is_leap y then 366 else 365)"

definition month_lens :: "int \<Rightarrow> int list" where
  "month_lens y = [31, if is_leap y then 29 else 28, 31, 30, 31, 30, 31, 31, 30, 31, 30, 31]"

definition leaps_upto :: "int \<Rightarrow> int" where
  "leaps_upto y = y div 4 - y div 100 + y div 400"

definition days_before_year :: "int \<Rightarrow> int" where
  "days_before_year y = 365 * (y - 1970) + (leaps_upto (y - 1) - leaps_upto 1969)"

definition days_from_civil :: "int \<Rightarrow> int \<Rightarrow> int \<Rightarrow> day" where
  "days_from_civil y m d = days_before_year y + sum_list (take (nat (m - 1)) (month_lens y)) + d - 1"

text \<open>
  Day number to date: \<open>year_of y r\<close> moves the offset \<open>r\<close> (days after 1 January of year
  \<open>y\<close>) into the year it falls in, one year per step, then \<open>month_of\<close> scans the month
  lengths of that year.
\<close>

function year_of :: "int \<Rightarrow> int \<Rightarrow> int \<times> int" where
  "year_of y r =
     (if r < 0 then year_of (y - 1) (r + year_len (y - 1))
      else if year_len y \<le> r then year_of (y + 1) (r - year_len y)
      else (y, r))"
  by pat_completeness auto
termination
  by (relation "measure (\<lambda>(y, r). nat (if r < 0 then 400 - r else r))") (auto simp: year_len_def split: if_splits)

declare year_of.simps [simp del]

fun month_of :: "int list \<Rightarrow> int \<Rightarrow> int \<Rightarrow> int \<times> int" where
  "month_of [] m r = (m, r)"
| "month_of (l # ls) m r = (if r < l then (m, r) else month_of ls (m + 1) (r - l))"

definition civil_from_days :: "day \<Rightarrow> int \<times> int \<times> int" where
  "civil_from_days z =
     (case year_of 1970 z of (y, r) \<Rightarrow>
        (case month_of (month_lens y) 1 r of (m, r') \<Rightarrow> (y, m, r' + 1)))"

definition valid_date :: "int \<Rightarrow> int \<Rightarrow> int \<Rightarrow> bool" where
  "valid_date y m d = (1 \<le> m \<and> m \<le> 12 \<and> 1 \<le> d \<and> d \<le> month_lens y ! nat (m - 1))"

section \<open>Zero-padded decimal fields\<close>

text \<open>
  \<open>digits_pad n k\<close> prints \<open>k\<close> in \<open>n\<close> decimal digits (\<open>%04d\<close>, \<open>%02d\<close>);
  \<open>parse_nat\<close> reads a string of decimal digits, as the datetime parser reads each field.
\<close>

fun digits_pad :: "nat \<Rightarrow> nat \<Rightarrow> string" where
  "digits_pad 0 k = []"
| "digits_pad (Suc n) k = digits_pad n (k div 10) @ [char_of (48 + k mod 10)]"

definition digit_val :: "char \<Rightarrow> nat option" where
  "digit_val c = (if 48 \<le> (of_char c :: nat) \<and> (of_char c :: nat) \<le> 57 then Some (of_char c - 48) else None)"

fun parse_nat_acc :: "nat \<Rightarrow> string \<Rightarrow> nat option" where
  "parse_nat_acc acc [] = Some acc"
| "parse_nat_acc acc (c # cs) =
     (case digit_val c of None \<Rightarrow> None | Some d \<Rightarrow> parse_nat_acc (10 * acc + d) cs)"

definition parse_nat :: "string \<Rightarrow> nat option" where
  "parse_nat s = parse_nat_acc 0 s"

section \<open>Printed and parsed timestamps\<close>

definition format_date :: "day \<Rightarrow> string" where
  "format_date z =
     (case civil_from_days z of (y, m, d) \<Rightarrow>
        digits_pad 4 (nat y) @ ''-'' @ digits_pad 2 (nat m) @ ''-'' @ digits_pad 2 (nat d))"

definition parse_date :: "string \<Rightarrow> day option" where
  "parse_date s =
     (if length s = 10 \<and> s ! 4 = CHR ''-'' \<and> s ! 7 = CHR ''-'' then
        (case (parse_nat (take 4 s), parse_nat (take 2 (drop 5 s)), parse_nat (drop 8 s)) of
           (Some y, Some m, Some d) \<Rightarrow>
             if valid_date (int y) (int m) (int d) then Some (days_from_civil (int y) (int m) (int d))
             else None
         | _ \<Rightarrow> None)
      else None)"

definition in_year_range :: "day \<Rightarrow> bool" where
  "in_year_range z = (case civil_from_days z of (y, _, _) \<Rightarrow> 0 \<le> y \<and> y \<le> 9999)"

definition format_time :: "int \<Rightarrow> string" where
  "format_time secs =
     digits_pad 2 (nat (secs div 3600)) @ '':'' @ digits_pad 2 (nat (secs mod 3600 div 60)) @ '':''
       @ digits_pad 2 (nat (secs mod 60))"

definition format_timestamp :: "timestamp \<Rightarrow> string" where
  "format_timestamp t = format_date (day_of t) @ '' '' @ format_time (t mod 86400)"

definition parse_iso :: "string \<Rightarrow> timestamp option" where
  "parse_iso s =
     (if length s = 10 then map_option midnight (parse_date s)
      else if length s = 19 \<and> s ! 10 = CHR '' '' \<and> s ! 13 = CHR '':'' \<and> s ! 16 = CHR '':'' then
        (case (parse_date (take 10 s), parse_nat (take 2 (drop 11 s)), parse_nat (take 2 (drop 14 s)),
               parse_nat (drop 17 s)) of
           (Some z, Some h, Some mi, Some sec) \<Rightarrow>
             if h < 24 \<and> mi < 60 \<and> sec < 60 then Some (midnight z + 3600 * int h + 60 * int mi + int sec)
             else None
         | _ \<Rightarrow> None)
      else None)"

text \<open>
  pandas stores timestamps as 64-bit nanosecond counts; at one-second resolution the
  representable range is \<open>[ts_min, ts_max]\<close> (1677-09-21 to 2262-04-11), and a text outside
  it raises \<open>OutOfBoundsDatetime\<close>, a \<open>ValueError\<close>.
\<close>

definition ts_min :: timestamp where
  "ts_min = -9223372036"

definition ts_max :: timestamp where
  "ts_max = 9223372036"

definition parse_timestamp :: "string \<Rightarrow> timestamp option" where
  "parse_timestamp s =
     (case parse_iso s of None \<Rightarrow> None | Some t \<Rightarrow> if ts_min \<le> t \<and> t \<le> ts_max then Some t else None)"

section \<open>Calendar arithmetic\<close>

lemma div_step_gen:
  assumes "0 < (k::int)"
  shows "y div k - (y - 1) div k = (if k dvd y then 1 else 0)"
proof -
  have y: "y = k * (y div k) + y mod k" by simp
  have m: "0 \<le> y mod k" "y mod k < k" using assms by simp_all
  have k0: "k \<noteq> 0" using assms by simp
  show ?thesis
  proof (cases "y mod k = 0")
    case True
    have "y - 1 = k * (y div k - 1) + (k - 1)" using True y by (simp add: algebra_simps)
    then have "(y - 1) div k = (k * (y div k - 1) + (k - 1)) div k" by (rule arg_cong)
    also have "\<dots> = y div k - 1 + (k - 1) div k" by (rule div_mult_self4 [OF k0])
    also have "(k - 1) div k = 0" using assms by (simp add: div_pos_pos_trivial)
    finally show ?thesis using True by (simp add: dvd_eq_mod_eq_0)
  next
    case False
    have "y - 1 = k * (y div k) + (y mod k - 1)" using y by simp
    then have "(y - 1) div k = (k * (y div k) + (y mod k - 1)) div k" by (rule arg_cong)
    also have "\<dots> = y div k + (y mod k - 1) div k" by (rule div_mult_self4 [OF k0])
    also have "(y mod k - 1) div k = 0" using m False by (simp add: div_pos_pos_trivial)
    finally show ?thesis using False by (simp add: dvd_eq_mod_eq_0)
  qed
qed

lemma leaps_upto_step: "leaps_upto y - leaps_upto (y - 1) = (if is_leap y then 1 else 0)"
proof -
  have "leaps_upto y - leaps_upto (y - 1)
      = (y div 4 - (y - 1) div 4) - (y div 100 - (y - 1) div 100) + (y div 400 - (y - 1) div 400)"
    by (simp add: leaps_upto_def)
  also have "\<dots> = (if 4 dvd y then 1 else 0) - (if 100 dvd y then 1 else 0) + (if 400 dvd y then 1 else 0)"
    by (simp only: div_step_gen [of 4 y] div_step_gen [of 100 y] div_step_gen [of 400 y] zero_less_numeral)
  also have "\<dots> = (if is_leap y then 1 else 0)"
  proof -
    have d1: "400 dvd y \<Longrightarrow> 100 dvd y" using dvd_trans [of "100::int" 400 y] by simp
    have d2: "100 dvd y \<Longrightarrow> 4 dvd y" using dvd_trans [of "4::int" 100 y] by simp
    show ?thesis unfolding is_leap_def
      by (cases "4 dvd y"; cases "100 dvd y"; cases "400 dvd y") (simp_all add: d1 d2)
  qed
  finally show ?thesis .
qed

lemma days_before_year_Suc: "days_before_year (y + 1) = days_before_year y + year_len y"
  using leaps_upto_step [of y] unfolding days_before_year_def year_len_def by (simp split: if_splits)

lemma year_len_bounds: "365 \<le> year_len y" "year_len y \<le> 366"
  by (simp_all add: year_len_def)

lemma days_before_year_mono: "y \<le> y' \<Longrightarrow> days_before_year y \<le> days_before_year y'"
proof (induction y' rule: int_ge_induct)
  case (step i)
  then show ?case using days_before_year_Suc [of i] year_len_bounds [of i] by linarith
qed simp

lemma days_before_year_less:
  "y < y' \<Longrightarrow> days_before_year y + year_len y \<le> days_before_year y'"
  using days_before_year_mono [of "y + 1" y'] days_before_year_Suc [of y] by simp

lemma year_split_unique:
  assumes "days_before_year y1 + r1 = days_before_year y2 + r2"
    and "0 \<le> r1" "r1 < year_len y1" "0 \<le> r2" "r2 < year_len y2"
  shows "y1 = y2 \<and> r1 = r2"
proof -
  have "\<not> y1 < y2" using days_before_year_less [of y1 y2] assms by linarith
  moreover have "\<not> y2 < y1" using days_before_year_less [of y2 y1] assms by linarith
  ultimately have "y1 = y2" by simp
  with assms(1) show ?thesis by simp
qed

lemma year_of_spec:
  "year_of y r = (y', r') \<Longrightarrow>
     0 \<le> r' \<and> r' < year_len y' \<and> days_before_year y' + r' = days_before_year y + r"
proof (induction y r rule: year_of.induct)
  case (1 y r)
  show ?case
  proof (cases "r < 0")
    case True
    with "1.prems" have "year_of (y - 1) (r + year_len (y - 1)) = (y', r')"
      by (simp add: year_of.simps [of y r])
    with "1.IH"(1) True days_before_year_Suc [of "y - 1"] show ?thesis by simp
  next
    case False
    show ?thesis
    proof (cases "year_len y \<le> r")
      case True
      with False "1.prems" have "year_of (y + 1) (r - year_len y) = (y', r')"
        by (simp add: year_of.simps [of y r])
      with "1.IH"(2) False True days_before_year_Suc [of y] show ?thesis by simp
    next
      case c2: False
      with False "1.prems" show ?thesis by (simp add: year_of.simps [of y r])
    qed
  qed
qed

lemma sum_take_mono:
  assumes "\<forall>x \<in> set ls. (0::int) \<le> x" and "i \<le> j"
  shows "sum_list (take i ls) \<le> sum_list (take j ls)"
proof -
  have "take j ls = take i ls @ take (j - i) (drop i ls)"
    using assms(2) by (metis le_add_diff_inverse take_add)
  moreover have "0 \<le> sum_list (take (j - i) (drop i ls))"
    using assms(1) by (intro sum_list_nonneg) (meson in_set_dropD in_set_takeD)
  ultimately show ?thesis by simp
qed

lemma sum_take_Suc_nth:
  "i < length ls \<Longrightarrow> sum_list (take (Suc i) ls) = sum_list (take i ls) + ls ! i"
  by (simp add: take_Suc_conv_app_nth)

lemma take_split_unique:
  assumes pos: "\<forall>x \<in> set ls. (0::int) \<le> x" and "i < length ls" "j < length ls"
    and eq: "sum_list (take i ls) + r1 = sum_list (take j ls) + r2"
    and "0 \<le> r1" "r1 < ls ! i" "0 \<le> r2" "r2 < ls ! j"
  shows "i = j \<and> r1 = r2"
proof -
  have "\<not> i < j"
  proof
    assume "i < j"
    then have "sum_list (take (Suc i) ls) \<le> sum_list (take j ls)" using pos by (intro sum_take_mono) auto
    with sum_take_Suc_nth [OF assms(2)] assms show False by linarith
  qed
  moreover have "\<not> j < i"
  proof
    assume "j < i"
    then have "sum_list (take (Suc j) ls) \<le> sum_list (take i ls)" using pos by (intro sum_take_mono) auto
    with sum_take_Suc_nth [OF assms(3)] assms show False by linarith
  qed
  ultimately have "i = j" by simp
  with eq show ?thesis by simp
qed

lemma month_of_spec:
  "0 \<le> r \<Longrightarrow> r < sum_list ls \<Longrightarrow> month_of ls m r = (m', r') \<Longrightarrow>
     \<exists>i < length ls. m' = m + int i \<and> r = sum_list (take i ls) + r' \<and> 0 \<le> r' \<and> r' < ls ! i"
proof (induction ls arbitrary: m r)
  case Nil
  then show ?case by simp
next
  case (Cons l ls)
  show ?case
  proof (cases "r < l")
    case True
    with Cons.prems show ?thesis by (intro exI [of _ 0]) auto
  next
    case False
    with Cons.prems have "month_of ls (m + 1) (r - l) = (m', r')" "0 \<le> r - l" "r - l < sum_list ls"
      by simp_all
    from Cons.IH [OF this(2,3,1)] obtain i where
      "i < length ls" "m' = m + 1 + int i" "r - l = sum_list (take i ls) + r'" "0 \<le> r'" "r' < ls ! i"
      by blast
    then show ?thesis by (intro exI [of _ "Suc i"]) auto
  qed
qed

lemma sum_month_lens: "sum_list (month_lens y) = year_len y"
  by (simp add: month_lens_def year_len_def)

lemma valid_date_month: "valid_date y m d \<Longrightarrow> nat (m - 1) < length (month_lens y)"
  by (simp add: valid_date_def month_lens_def nat_less_iff)

lemma month_lens_pos: "\<forall>x \<in> set (month_lens y). 0 \<le> x"
  and length_month_lens: "length (month_lens y) = 12"
  by (simp_all add: month_lens_def)

lemma days_before_year_1970 [simp]: "days_before_year 1970 = 0"
  by (simp add: days_before_year_def)

lemma valid_date_offset:
  assumes "valid_date y m d"
  shows "0 \<le> sum_list (take (nat (m - 1)) (month_lens y)) + d - 1
         \<and> sum_list (take (nat (m - 1)) (month_lens y)) + d - 1 < year_len y"
proof -
  let ?i = "nat (m - 1)"
  have i: "?i < length (month_lens y)" using assms by (rule valid_date_month)
  have "0 \<le> sum_list (take ?i (month_lens y))"
    using month_lens_pos [of y] by (intro sum_list_nonneg) (meson in_set_takeD)
  moreover have "sum_list (take (Suc ?i) (month_lens y)) \<le> sum_list (take 12 (month_lens y))"
    using i month_lens_pos [of y] by (intro sum_take_mono) (auto simp: length_month_lens)
  ultimately show ?thesis using assms sum_take_Suc_nth [OF i] sum_month_lens [of y]
    by (simp add: valid_date_def length_month_lens)
qed

lemma civil_from_days_spec:
  assumes "civil_from_days z = (y, m, d)"
  shows "valid_date y m d \<and> days_from_civil y m d = z"
proof -
  obtain r where yr: "year_of 1970 z = (y, r)"
    using assms by (auto simp: civil_from_days_def split: prod.splits)
  obtain r' where mr: "month_of (month_lens y) 1 r = (m, r')" and d: "d = r' + 1"
    using assms yr by (auto simp: civil_from_days_def split: prod.splits)
  from year_of_spec [OF yr] have r: "0 \<le> r" "r < sum_list (month_lens y)" "days_before_year y + r = z"
    by (simp_all add: sum_month_lens)
  from month_of_spec [OF r(1,2) mr] obtain i where
    i: "i < 12" "m = 1 + int i" "r = sum_list (take i (month_lens y)) + r'" "0 \<le> r'" "r' < month_lens y ! i"
    by (auto simp: length_month_lens)
  have "nat (m - 1) = i" using i(2) by simp
  then show ?thesis using i r d by (simp add: valid_date_def days_from_civil_def)
qed

lemma days_from_civil_inj:
  assumes "valid_date y m d" "valid_date y' m' d'" "days_from_civil y m d = days_from_civil y' m' d'"
  shows "(y, m, d) = (y', m', d')"
proof -
  note o1 = valid_date_offset [OF assms(1)] and o2 = valid_date_offset [OF assms(2)]
  have "y = y'" using year_split_unique [OF _ conjunct1 [OF o1] conjunct2 [OF o1] conjunct1 [OF o2] conjunct2 [OF o2]]
    assms(3) by (simp add: days_from_civil_def algebra_simps)
  moreover have "nat (m - 1) = nat (m' - 1) \<and> d - 1 = d' - 1"
  proof (rule take_split_unique [OF month_lens_pos])
    show "nat (m - 1) < length (month_lens y)" "nat (m' - 1) < length (month_lens y)"
      using valid_date_month [OF assms(1)] valid_date_month [OF assms(2)] by (simp_all add: length_month_lens)
    show "sum_list (take (nat (m - 1)) (month_lens y)) + (d - 1)
        = sum_list (take (nat (m' - 1)) (month_lens y)) + (d' - 1)"
      using assms(3) \<open>y = y'\<close> by (simp add: days_from_civil_def)
    show "0 \<le> d - 1" "d - 1 < month_lens y ! nat (m - 1)" "0 \<le> d' - 1" "d' - 1 < month_lens y ! nat (m' - 1)"
      using assms(1,2) \<open>y = y'\<close> by (simp_all add: valid_date_def)
  qed
  moreover have "1 \<le> m" "1 \<le> m'" using assms(1,2) by (simp_all add: valid_date_def)
  ultimately show ?thesis by (simp add: nat_eq_iff2)
qed

lemma civil_from_days_of_civil:
  assumes "valid_date y m d"
  shows "civil_from_days (days_from_civil y m d) = (y, m, d)"
proof -
  obtain y' m' d' where c: "civil_from_days (days_from_civil y m d) = (y', m', d')" by (metis prod_cases3)
  from civil_from_days_spec [OF c] assms have "(y', m', d') = (y, m, d)"
    by (intro days_from_civil_inj) simp_all
  with c show ?thesis by simp
qed

section \<open>Decimal fields\<close>

lemma length_digits_pad [simp]: "length (digits_pad n k) = n"
  by (induction n arbitrary: k) simp_all

lemma less_append_same_length:
  fixes a c :: "'a::linorder list"
  shows "length a = length c \<Longrightarrow> (a @ b < c @ d) \<longleftrightarrow> a < c \<or> a = c \<and> b < d"
proof (induction a arbitrary: c)
  case Nil
  then show ?case by simp
next
  case (Cons x a)
  then obtain y c' where "c = y # c'" "length a = length c'" by (cases c) auto
  with Cons.IH show ?case by auto
qed

lemma digit_val_char_of: "d < 10 \<Longrightarrow> digit_val (char_of (48 + d)) = Some d"
  by (simp add: digit_val_def of_char_of)

lemma char_of_digit_val: "digit_val c = Some d \<Longrightarrow> char_of (48 + d) = c \<and> d < 10"
proof -
  assume a: "digit_val c = Some d"
  then have "of_char c = 48 + d" "d < 10" by (auto simp: digit_val_def split: if_splits)
  then show ?thesis by (metis char_of_char)
qed

lemma parse_nat_acc_append:
  "parse_nat_acc acc (xs @ ys) = (case parse_nat_acc acc xs of None \<Rightarrow> None | Some v \<Rightarrow> parse_nat_acc v ys)"
  by (induction acc xs rule: parse_nat_acc.induct) (simp_all split: option.split)

lemma parse_digits_pad: "parse_nat (digits_pad n k) = Some (k mod 10 ^ n)"
proof (induction n arbitrary: k)
  case 0
  then show ?case by (simp add: parse_nat_def)
next
  case (Suc n)
  have "k mod 10 ^ Suc n = 10 * (k div 10 mod 10 ^ n) + k mod 10"
    by (simp add: mod_mult2_eq mult.commute)
  with Suc.IH [of "k div 10"] show ?case
    by (simp add: parse_nat_def parse_nat_acc_append digit_val_char_of)
qed

lemma digits_pad_parse:
  "parse_nat s = Some v \<Longrightarrow> digits_pad (length s) v = s \<and> v < 10 ^ length s"
proof (induction s arbitrary: v rule: rev_induct)
  case Nil
  then show ?case by (simp add: parse_nat_def)
next
  case (snoc c s)
  then obtain v0 d where v0: "parse_nat s = Some v0" and d: "digit_val c = Some d"
    and v: "v = 10 * v0 + d"
    by (auto simp: parse_nat_def parse_nat_acc_append split: option.splits)
  from char_of_digit_val [OF d] have c: "char_of (48 + d) = c" "d < 10" by simp_all
  from snoc.IH [OF v0] have ih: "digits_pad (length s) v0 = s" "v0 < 10 ^ length s" by simp_all
  have "v div 10 = v0" "v mod 10 = d" using v c(2) by simp_all
  moreover have "v < 10 ^ Suc (length s)" using v c(2) ih(2) by simp
  ultimately show ?case using ih c by simp
qed

lemma digit_char_less: "(a::nat) < 10 \<Longrightarrow> b < 10 \<Longrightarrow> char_of (48 + a) < (char_of (48 + b) :: char) \<longleftrightarrow> a < b"
  by (simp add: less_char_def of_char_of)

lemma digit_char_eq: "(a::nat) < 10 \<Longrightarrow> b < 10 \<Longrightarrow> char_of (48 + a) = (char_of (48 + b) :: char) \<longleftrightarrow> a = b"
  using digit_val_char_of [of a] digit_val_char_of [of b] by auto

lemma digits_pad_mod: "digits_pad n (k mod 10 ^ n) = digits_pad n k"
  using digits_pad_parse [OF parse_digits_pad [of n k]] by simp

lemma digits_pad_eq: "digits_pad n k = digits_pad n k' \<longleftrightarrow> k mod 10 ^ n = k' mod 10 ^ n"
proof
  assume "digits_pad n k = digits_pad n k'"
  then show "k mod 10 ^ n = k' mod 10 ^ n" using parse_digits_pad [of n k] parse_digits_pad [of n k'] by simp
next
  assume "k mod 10 ^ n = k' mod 10 ^ n"
  then show "digits_pad n k = digits_pad n k'" by (metis digits_pad_mod)
qed

lemma digits_pad_less: "digits_pad n k < digits_pad n k' \<longleftrightarrow> k mod 10 ^ n < k' mod 10 ^ n"
proof (induction n arbitrary: k k')
  case 0
  then show ?case by simp
next
  case (Suc n)
  have m: "k mod 10 ^ Suc n = 10 * (k div 10 mod 10 ^ n) + k mod 10" for k :: nat
    by (simp add: mod_mult2_eq mult.commute)
  have "digits_pad (Suc n) k < digits_pad (Suc n) k'
      \<longleftrightarrow> k div 10 mod 10 ^ n < k' div 10 mod 10 ^ n
          \<or> k div 10 mod 10 ^ n = k' div 10 mod 10 ^ n \<and> k mod 10 < k' mod 10"
    by (simp add: less_append_same_length Suc.IH digits_pad_eq digit_char_less)
  also have "\<dots> \<longleftrightarrow> k mod 10 ^ Suc n < k' mod 10 ^ Suc n"
    unfolding m [of k] m [of k'] by auto
  finally show ?case .
qed

section \<open>Timestamps: round trips and order\<close>

lemma valid_date_bounds: "valid_date y m d \<Longrightarrow> 1 \<le> m \<and> m \<le> 12 \<and> 1 \<le> d \<and> d \<le> 31"
proof -
  assume v: "valid_date y m d"
  then have "nat (m - 1) < 12" using valid_date_month [OF v] by (simp add: length_month_lens)
  then have "month_lens y ! nat (m - 1) \<le> 31"
    by (auto simp: month_lens_def less_Suc_eq numeral_eq_Suc nth_Cons')
  with v show ?thesis by (simp add: valid_date_def)
qed

lemma parse_format_date: "in_year_range z \<Longrightarrow> parse_date (format_date z) = Some z"
proof -
  assume r: "in_year_range z"
  obtain y m d where c: "civil_from_days z = (y, m, d)" by (metis prod_cases3)
  note sp = civil_from_days_spec [OF c]
  have b: "0 \<le> y" "y \<le> 9999" using r c by (simp_all add: in_year_range_def)
  have b2: "1 \<le> m" "m \<le> 12" "1 \<le> d" "d \<le> 31" using valid_date_bounds [OF conjunct1 [OF sp]] by simp_all
  have py: "parse_nat (digits_pad 4 (nat y)) = Some (nat y)"
    using b by (simp add: parse_digits_pad)
  have pm: "parse_nat (digits_pad 2 (nat m)) = Some (nat m)"
    using b2 by (simp add: parse_digits_pad)
  have pd: "parse_nat (digits_pad 2 (nat d)) = Some (nat d)"
    using b2 by (simp add: parse_digits_pad)
  show ?thesis
    using py pm pd sp b b2 c by (simp add: format_date_def parse_date_def nth_append)
qed

lemma split_date_string:
  "length s = 10 \<Longrightarrow> s = take 4 s @ [s ! 4] @ take 2 (drop 5 s) @ [s ! 7] @ drop 8 s"
  by (simp add: length_Suc_conv numeral_eq_Suc) (elim exE conjE, simp)

lemma format_parse_date:
  assumes "parse_date s = Some z"
  shows "format_date z = s \<and> in_year_range z"
proof -
  have len: "length s = 10" and sep: "s ! 4 = CHR ''-''" "s ! 7 = CHR ''-''"
    using assms by (simp_all add: parse_date_def split: if_splits)
  obtain y m d where f: "parse_nat (take 4 s) = Some y" "parse_nat (take 2 (drop 5 s)) = Some m"
      "parse_nat (drop 8 s) = Some d" and v: "valid_date (int y) (int m) (int d)"
      and z: "z = days_from_civil (int y) (int m) (int d)"
    using assms len sep by (auto simp: parse_date_def split: option.splits if_splits)
  have c: "civil_from_days z = (int y, int m, int d)" using z v by (simp add: civil_from_days_of_civil)
  have "digits_pad 4 y = take 4 s" "y < 10 ^ 4" using digits_pad_parse [OF f(1)] len by simp_all
  moreover have "digits_pad 2 m = take 2 (drop 5 s)" using digits_pad_parse [OF f(2)] len by simp
  moreover have "digits_pad 2 d = drop 8 s" using digits_pad_parse [OF f(3)] len by simp
  ultimately have "format_date z = s"
    using c sep split_date_string [OF len] by (simp add: format_date_def)
  moreover have "in_year_range z" using c \<open>y < 10 ^ 4\<close> by (simp add: in_year_range_def)
  ultimately show ?thesis by simp
qed

lemma secs_of_day:
  fixes t :: int
  defines "secs \<equiv> nat (t mod 86400)"
  shows "secs < 86400 \<and> t = midnight (day_of t) + int secs
         \<and> secs = 3600 * (secs div 3600) + 60 * (secs mod 3600 div 60) + secs mod 60
         \<and> secs div 3600 < 24"
proof -
  have i: "int secs = t mod 86400" unfolding secs_def by simp
  have l: "secs < 86400" unfolding secs_def by (simp add: nat_less_iff)
  have t: "t = midnight (day_of t) + int secs"
    unfolding i midnight_def day_of_def by (rule div_mult_mod_eq [symmetric])
  have m60: "secs mod 3600 mod 60 = secs mod 60" by (rule mod_mod_cancel) simp
  have d1: "secs = 3600 * (secs div 3600) + secs mod 3600" by (rule mult_div_mod_eq [symmetric])
  have d2: "secs mod 3600 = 60 * (secs mod 3600 div 60) + secs mod 3600 mod 60"
    by (rule mult_div_mod_eq [symmetric])
  have h: "secs div 3600 < 24" using l by (simp add: div_less_iff_less_mult)
  from d1 d2 m60 have "secs = 3600 * (secs div 3600) + 60 * (secs mod 3600 div 60) + secs mod 60" by linarith
  with l t h show ?thesis by blast
qed

lemma format_time_nat:
  "0 \<le> s \<Longrightarrow> format_time s =
     digits_pad 2 (nat s div 3600) @ '':'' @ digits_pad 2 (nat s mod 3600 div 60) @ '':'' @ digits_pad 2 (nat s mod 60)"
  by (simp add: format_time_def nat_div_distrib nat_mod_distrib)

lemma format_timestamp_nat:
  "format_timestamp t = format_date (day_of t) @ '' '' @
     digits_pad 2 (nat (t mod 86400) div 3600) @ '':'' @ digits_pad 2 (nat (t mod 86400) mod 3600 div 60) @ '':''
       @ digits_pad 2 (nat (t mod 86400) mod 60)"
  by (simp add: format_timestamp_def format_time_nat)

lemma format_timestamp_length: "length (format_date z) = 10" "length (format_timestamp t) = 19"
  by (simp_all add: format_date_def format_timestamp_def format_time_def split: prod.split)

lemma parse_format_iso:
  "in_year_range (day_of t) \<Longrightarrow> parse_iso (format_timestamp t) = Some t"
proof -
  assume r: "in_year_range (day_of t)"
  define secs where "secs = nat (t mod 86400)"
  note sd = secs_of_day [of t, folded secs_def]
  have h: "parse_nat (digits_pad 2 (secs div 3600)) = Some (secs div 3600)"
    using sd by (simp add: parse_digits_pad)
  have mi: "parse_nat (digits_pad 2 (secs mod 3600 div 60)) = Some (secs mod 3600 div 60)"
    by (simp add: parse_digits_pad less_mult_imp_div_less)
  have sc: "parse_nat (digits_pad 2 (secs mod 60)) = Some (secs mod 60)"
    by (simp add: parse_digits_pad)
  have d: "parse_date (format_date (day_of t)) = Some (day_of t)" using r by (rule parse_format_date)
  have "midnight (day_of t) + 3600 * int (secs div 3600) + 60 * int (secs mod 3600 div 60) + int (secs mod 60) = t"
    using sd by simp
  then show ?thesis
    using h mi sc d sd format_timestamp_length(1) [of "day_of t"]
    by (simp add: format_timestamp_nat parse_iso_def nth_append less_mult_imp_div_less
        flip: secs_def)
qed

lemma split_timestamp_string:
  "length s = 19 \<Longrightarrow>
     s = take 10 s @ [s ! 10] @ take 2 (drop 11 s) @ [s ! 13] @ take 2 (drop 14 s) @ [s ! 16] @ drop 17 s"
  by (simp add: length_Suc_conv numeral_eq_Suc) (elim exE conjE, simp)

lemma day_of_midnight_plus:
  "0 \<le> x \<Longrightarrow> x < 86400 \<Longrightarrow> day_of (midnight z + x) = z \<and> (midnight z + x) mod 86400 = x"
  by (simp add: day_of_def midnight_def)

lemma hms_div_mod:
  fixes h mi sec :: nat
  assumes "mi < 60" "sec < 60"
  shows "(3600 * h + 60 * mi + sec) div 3600 = h \<and> (3600 * h + 60 * mi + sec) mod 3600 div 60 = mi
         \<and> (3600 * h + 60 * mi + sec) mod 60 = sec"
proof -
  have a: "60 * mi + sec < 3600" using assms by linarith
  have "(3600 * h + (60 * mi + sec)) div 3600 = h" using a by simp
  moreover have "(3600 * h + (60 * mi + sec)) mod 3600 = 60 * mi + sec" using a by simp
  moreover have "(60 * mi + sec) div 60 = mi" using assms by simp
  moreover have "(3600 * h + 60 * mi + sec) mod 60 = sec"
  proof -
    have e: "3600 * h + 60 * mi + sec = sec + (60 * h + mi) * 60" by simp
    show ?thesis unfolding e using assms by (simp only: mod_mult_self1 mod_less)
  qed
  ultimately show ?thesis by (simp add: add.assoc)
qed

lemma format_parse_iso:
  assumes "parse_iso s = Some t"
  shows "in_year_range (day_of t)
         \<and> (length s = 19 \<and> format_timestamp t = s
            \<or> length s = 10 \<and> format_date (day_of t) = s \<and> t = midnight (day_of t))"
proof (cases "length s = 10")
  case True
  then obtain z where z: "parse_date s = Some z" "t = midnight z"
    using assms by (auto simp: parse_iso_def)
  with format_parse_date [OF z(1)] True show ?thesis by simp
next
  case False
  then have len: "length s = 19" and sep: "s ! 10 = CHR '' ''" "s ! 13 = CHR '':''" "s ! 16 = CHR '':''"
    using assms by (simp_all add: parse_iso_def split: if_splits)
  obtain z h mi sec where f: "parse_date (take 10 s) = Some z" "parse_nat (take 2 (drop 11 s)) = Some h"
      "parse_nat (take 2 (drop 14 s)) = Some mi" "parse_nat (drop 17 s) = Some sec"
      and b: "h < 24" "mi < 60" "sec < 60" and t0: "t = midnight z + 3600 * int h + 60 * int mi + int sec"
    using assms len sep False by (auto simp: parse_iso_def split: option.splits if_splits)
  have t: "t = midnight z + int (3600 * h + 60 * mi + sec)" using t0 by simp
  have lt: "3600 * h + 60 * mi + sec < 86400" using b by linarith
  then have dz: "day_of t = z" and tm: "nat (t mod 86400) = 3600 * h + 60 * mi + sec"
    using day_of_midnight_plus [of "int (3600 * h + 60 * mi + sec)" z] t by simp_all
  note hms = hms_div_mod [OF b(2,3), of h]
  have "digits_pad 2 h = take 2 (drop 11 s)" using digits_pad_parse [OF f(2)] len by simp
  moreover have "digits_pad 2 mi = take 2 (drop 14 s)" using digits_pad_parse [OF f(3)] len by simp
  moreover have "digits_pad 2 sec = drop 17 s" using digits_pad_parse [OF f(4)] len by simp
  moreover note fd = format_parse_date [OF f(1)]
  ultimately have "format_timestamp t = s"
    using dz tm hms sep split_timestamp_string [OF len] by (simp add: format_timestamp_nat)
  with fd dz len show ?thesis by simp
qed

lemma less_div_mod_iff_nat:
  fixes a b k :: nat
  assumes "0 < k"
  shows "a < b \<longleftrightarrow> a div k < b div k \<or> a div k = b div k \<and> a mod k < b mod k"
proof -
  have a: "a = k * (a div k) + a mod k" and b: "b = k * (b div k) + b mod k" by simp_all
  have ma: "a mod k < k" and mb: "b mod k < k" using assms by simp_all
  have step: "x < y \<Longrightarrow> k * x + k \<le> k * y" for x y :: nat
    using mult_le_mono2 [of "Suc x" y k] by simp
  consider "a div k < b div k" | "a div k = b div k" | "b div k < a div k" by linarith
  then show ?thesis
  proof cases
    case 1
    with step [OF 1] have "a < b" using a b ma by linarith
    with 1 show ?thesis by simp
  next
    case 2
    then have e: "k * (a div k) = k * (b div k)" by simp
    have "a < b \<longleftrightarrow> a mod k < b mod k" using a b e by (intro iffI) linarith+
    with 2 show ?thesis by simp
  next
    case 3
    with step [OF 3] have "b < a" using a b mb by linarith
    with 3 show ?thesis by simp
  qed
qed

lemma less_div_mod_iff_int:
  fixes a b k :: int
  assumes "0 < k"
  shows "a < b \<longleftrightarrow> a div k < b div k \<or> a div k = b div k \<and> a mod k < b mod k"
proof -
  have a: "a = k * (a div k) + a mod k" and b: "b = k * (b div k) + b mod k" by simp_all
  have ma: "0 \<le> a mod k" "a mod k < k" and mb: "0 \<le> b mod k" "b mod k < k" using assms by simp_all
  have step: "x < y \<Longrightarrow> k * x + k \<le> k * y" for x y :: int
    using mult_left_mono [of "x + 1" y k] assms by (simp add: distrib_left)
  consider "a div k < b div k" | "a div k = b div k" | "b div k < a div k" by linarith
  then show ?thesis
  proof cases
    case 1
    with step [OF 1] have "a < b" using a b ma mb by linarith
    with 1 show ?thesis by simp
  next
    case 2
    then have e: "k * (a div k) = k * (b div k)" by simp
    have "a < b \<longleftrightarrow> a mod k < b mod k" using a b e by (intro iffI) linarith+
    with 2 show ?thesis by simp
  next
    case 3
    with step [OF 3] have "b < a" using a b ma mb by linarith
    with 3 show ?thesis by simp
  qed
qed

lemma days_from_civil_less:
  assumes v: "valid_date y m d" "valid_date y' m' d'"
    and lex: "y < y' \<or> y = y' \<and> (m < m' \<or> m = m' \<and> d < d')"
  shows "days_from_civil y m d < days_from_civil y' m' d'"
proof -
  note o1 = valid_date_offset [OF v(1)] and o2 = valid_date_offset [OF v(2)]
  consider "y < y'" | "y = y'" "m < m'" | "y = y'" "m = m'" "d < d'" using lex by blast
  then show ?thesis
  proof cases
    case 1
    then show ?thesis using days_before_year_less [OF 1] o1 o2 by (simp add: days_from_civil_def)
  next
    case 2
    let ?i = "nat (m - 1)" and ?j = "nat (m' - 1)"
    have i: "?i < length (month_lens y)" using valid_date_month [OF v(1)] .
    have "Suc ?i \<le> ?j" using 2 v unfolding valid_date_def by arith
    then have "sum_list (take (Suc ?i) (month_lens y)) \<le> sum_list (take ?j (month_lens y))"
      by (rule sum_take_mono [OF month_lens_pos])
    moreover have "d \<le> month_lens y ! ?i" "1 \<le> d'" using v by (simp_all add: valid_date_def)
    ultimately show ?thesis using 2 sum_take_Suc_nth [OF i] by (simp add: days_from_civil_def)
  next
    case 3
    then show ?thesis by (simp add: days_from_civil_def)
  qed
qed

lemma lex3_less_iff:
  "((y::int), (m::int), (d::int)) < (y', m', d') \<longleftrightarrow> y < y' \<or> y = y' \<and> (m < m' \<or> m = m' \<and> d < d')"
  by (auto simp: less_prod_def)

lemma civil_from_days_less_iff: "civil_from_days z1 < civil_from_days z2 \<longleftrightarrow> z1 < z2"
proof -
  obtain y m d where c1: "civil_from_days z1 = (y, m, d)" by (metis prod_cases3)
  obtain y' m' d' where c2: "civil_from_days z2 = (y', m', d')" by (metis prod_cases3)
  note s1 = civil_from_days_spec [OF c1] and s2 = civil_from_days_spec [OF c2]
  have fw: "z1 < z2" if "civil_from_days z1 < civil_from_days z2"
  proof -
    from that have "y < y' \<or> y = y' \<and> (m < m' \<or> m = m' \<and> d < d')" unfolding c1 c2 lex3_less_iff .
    from days_from_civil_less [OF conjunct1 [OF s1] conjunct1 [OF s2] this] s1 s2 show ?thesis by simp
  qed
  have bw: "z2 < z1" if "civil_from_days z2 < civil_from_days z1"
  proof -
    from that have "y' < y \<or> y' = y \<and> (m' < m \<or> m' = m \<and> d' < d)" unfolding c1 c2 lex3_less_iff .
    from days_from_civil_less [OF conjunct1 [OF s2] conjunct1 [OF s1] this] s1 s2 show ?thesis by simp
  qed
  have eq: "civil_from_days z1 = civil_from_days z2 \<Longrightarrow> z1 = z2" using s1 s2 c1 c2 by simp
  show ?thesis
  proof
    assume "z1 < z2"
    then show "civil_from_days z1 < civil_from_days z2"
      using bw eq by (metis less_asym' linorder_neqE)
  qed (rule fw)
qed

lemma format_time_less_iff_nat:
  fixes s1 s2 :: nat
  shows "s1 < 86400 \<Longrightarrow> s2 < 86400 \<Longrightarrow> format_time (int s1) < format_time (int s2) \<longleftrightarrow> s1 < s2"
proof -
  assume b: "s1 < 86400" "s2 < 86400"
  have h: "s1 div 3600 < 100" "s2 div 3600 < 100" using b by (simp_all add: div_less_iff_less_mult)
  have m: "s1 mod 3600 div 60 < 100" "s2 mod 3600 div 60 < 100" by (simp_all add: less_mult_imp_div_less)
  have r: "s1 mod 3600 mod 60 = s1 mod 60" "s2 mod 3600 mod 60 = s2 mod 60" by (simp_all add: mod_mod_cancel)
  have "format_time (int s1) < format_time (int s2) \<longleftrightarrow>
      s1 div 3600 < s2 div 3600 \<or> s1 div 3600 = s2 div 3600 \<and>
        (s1 mod 3600 div 60 < s2 mod 3600 div 60 \<or> s1 mod 3600 div 60 = s2 mod 3600 div 60 \<and> s1 mod 60 < s2 mod 60)"
    using h m by (simp add: format_time_nat less_append_same_length digits_pad_less digits_pad_eq)
  also have "\<dots> \<longleftrightarrow> s1 < s2"
    using less_div_mod_iff_nat [of 3600 s1 s2] less_div_mod_iff_nat [of 60 "s1 mod 3600" "s2 mod 3600"] r
    by simp
  finally show ?thesis .
qed

lemma civil_fields_in_range:
  assumes "in_year_range z" "civil_from_days z = (y, m, d)"
  shows "nat y mod 10 ^ 4 = nat y \<and> nat m mod 10 ^ 2 = nat m \<and> nat d mod 10 ^ 2 = nat d
         \<and> 0 \<le> y \<and> 1 \<le> m \<and> 1 \<le> d"
proof -
  have "0 \<le> y" "y \<le> 9999" using assms by (simp_all add: in_year_range_def)
  moreover have "1 \<le> m" "m \<le> 12" "1 \<le> d" "d \<le> 31"
    using valid_date_bounds [OF conjunct1 [OF civil_from_days_spec [OF assms(2)]]] by simp_all
  ultimately show ?thesis by (simp add: nat_less_iff)
qed

lemma format_date_less_iff:
  assumes "in_year_range z1" "in_year_range z2"
  shows "format_date z1 < format_date z2 \<longleftrightarrow> z1 < z2"
proof -
  obtain y m d where c1: "civil_from_days z1 = (y, m, d)" by (metis prod_cases3)
  obtain y' m' d' where c2: "civil_from_days z2 = (y', m', d')" by (metis prod_cases3)
  note r1 = civil_fields_in_range [OF assms(1) c1] and r2 = civil_fields_in_range [OF assms(2) c2]
  have "format_date z1 < format_date z2 \<longleftrightarrow>
      nat y < nat y' \<or> nat y = nat y' \<and> (nat m < nat m' \<or> nat m = nat m' \<and> nat d < nat d')"
    using r1 r2 by (simp add: format_date_def c1 c2 less_append_same_length digits_pad_less digits_pad_eq)
  also have "\<dots> \<longleftrightarrow> (y, m, d) < (y', m', d')"
  proof -
    have p: "0 \<le> y" "0 \<le> y'" "0 \<le> m" "0 \<le> m'" "0 \<le> d" "0 \<le> d'" using r1 r2 by simp_all
    then show ?thesis unfolding lex3_less_iff
      by (simp only: nat_less_eq_zless [OF p(1)] nat_less_eq_zless [OF p(3)] nat_less_eq_zless [OF p(5)]
          eq_nat_nat_iff [OF p(1,2)] eq_nat_nat_iff [OF p(3,4)])
  qed
  also have "\<dots> \<longleftrightarrow> z1 < z2" using civil_from_days_less_iff [of z1 z2] c1 c2 by simp
  finally show ?thesis .
qed

lemma format_timestamp_less_iff:
  assumes "in_year_range (day_of t1)" "in_year_range (day_of t2)"
  shows "format_timestamp t1 < format_timestamp t2 \<longleftrightarrow> t1 < t2"
proof -
  have s: "nat (t1 mod 86400) < 86400" "nat (t2 mod 86400) < 86400" by (simp_all add: nat_less_iff)
  have "format_timestamp t1 < format_timestamp t2 \<longleftrightarrow>
      format_date (day_of t1) < format_date (day_of t2)
      \<or> format_date (day_of t1) = format_date (day_of t2) \<and> nat (t1 mod 86400) < nat (t2 mod 86400)"
    using format_timestamp_length(1) format_time_less_iff_nat [OF s]
    by (simp add: format_timestamp_def less_append_same_length)
  also have "\<dots> \<longleftrightarrow> day_of t1 < day_of t2 \<or> day_of t1 = day_of t2 \<and> t1 mod 86400 < t2 mod 86400"
  proof -
    have "format_date (day_of t1) = format_date (day_of t2) \<longleftrightarrow> day_of t1 = day_of t2"
      using parse_format_date [OF assms(1)] parse_format_date [OF assms(2)] by (metis option.inject)
    moreover have "nat (t1 mod 86400) < nat (t2 mod 86400) \<longleftrightarrow> t1 mod 86400 < t2 mod 86400"
      by (rule nat_less_eq_zless) simp
    ultimately show ?thesis using format_date_less_iff [OF assms] by simp
  qed
  also have "\<dots> \<longleftrightarrow> t1 < t2" unfolding day_of_def by (rule less_div_mod_iff_int [symmetric]) simp
  finally show ?thesis .
qed

lemma format_timestamp_le_iff:
  assumes "in_year_range (day_of t1)" "in_year_range (day_of t2)"
  shows "format_timestamp t1 \<le> format_timestamp t2 \<longleftrightarrow> t1 \<le> t2"
  using format_timestamp_less_iff [OF assms(2,1)] by (simp add: not_less [symmetric])

lemma civil_year_mono: "z1 \<le> z2 \<Longrightarrow> fst (civil_from_days z1) \<le> fst (civil_from_days z2)"
proof (cases "z1 = z2")
  case False
  assume "z1 \<le> z2"
  with False have "civil_from_days z1 < civil_from_days z2" by (simp add: civil_from_days_less_iff)
  then show ?thesis by (auto simp: less_prod_def)
qed simp

lemma civil_year_ts_bounds:
  "fst (civil_from_days (day_of ts_min)) = 1677" "fst (civil_from_days (day_of ts_max)) = 2262"
  by code_simp+

lemma in_bounds_year_range:
  assumes "ts_min \<le> t" "t \<le> ts_max"
  shows "in_year_range (day_of t)"
proof -
  have "day_of ts_min \<le> day_of t" "day_of t \<le> day_of ts_max"
    using assms by (simp_all add: day_of_def zdiv_mono1)
  then have "1677 \<le> fst (civil_from_days (day_of t))" "fst (civil_from_days (day_of t)) \<le> 2262"
    using civil_year_mono civil_year_ts_bounds by metis+
  then show ?thesis by (cases "civil_from_days (day_of t)") (simp add: in_year_range_def)
qed

section \<open>Properties\<close>

text \<open>
  C30. Printing then parsing gives back the value, for both printed forms: a representable
  timestamp printed as \<open>YYYY-MM-DD HH:MM:SS\<close>, and a date printed by \<open>str(date)\<close> as
  \<open>YYYY-MM-DD\<close>, which pandas reads as midnight of that date. The second half is why the
  date filter (\<open>Dataset.in_date_range\<close>) compares with \<open>midnight\<close>.
\<close>

theorem timestamp_roundtrip:
  "(ts_min \<le> t \<and> t \<le> ts_max \<longrightarrow> parse_timestamp (format_timestamp t) = Some t)
   \<and> (ts_min \<le> midnight d \<and> midnight d \<le> ts_max \<longrightarrow> parse_timestamp (format_date d) = Some (midnight d))"
proof (intro conjI impI)
  assume b: "ts_min \<le> t \<and> t \<le> ts_max"
  then have "parse_iso (format_timestamp t) = Some t"
    by (intro parse_format_iso in_bounds_year_range) simp_all
  with b show "parse_timestamp (format_timestamp t) = Some t" by (simp add: parse_timestamp_def)
next
  assume b: "ts_min \<le> midnight d \<and> midnight d \<le> ts_max"
  then have "in_year_range (day_of (midnight d))" by (intro in_bounds_year_range) simp_all
  then have "parse_date (format_date d) = Some d" by (simp add: parse_format_date)
  with b show "parse_timestamp (format_date d) = Some (midnight d)"
    by (simp add: parse_timestamp_def parse_iso_def format_timestamp_length)
qed

text \<open>
  C31. On representable timestamps, comparing the printed texts as Python compares strings
  (character codes, lexicographically) orders them exactly as the timestamps: sorting the
  text column at line 68 sorts by time.
\<close>

theorem string_order_is_time_order:
  assumes "ts_min \<le> t1" "t1 \<le> ts_max" "ts_min \<le> t2" "t2 \<le> ts_max"
  shows "format_timestamp t1 \<le> format_timestamp t2 \<longleftrightarrow> t1 \<le> t2"
  using format_timestamp_le_iff [OF in_bounds_year_range [OF assms(1,2)] in_bounds_year_range [OF assms(3,4)]] .

theorem timestamp_roundtrip_witness:
  "parse_timestamp (format_timestamp 1514887200) = Some 1514887200
   \<and> parse_timestamp (format_date 17533) = Some (midnight 17533)"
  using timestamp_roundtrip [of 1514887200 17533] by (simp add: ts_min_def ts_max_def midnight_def)

theorem string_order_is_time_order_witness:
  "format_timestamp 1514797200 \<le> format_timestamp 1514887200 \<longleftrightarrow> (1514797200::int) \<le> 1514887200"
  by (rule string_order_is_time_order) (simp_all add: ts_min_def ts_max_def)

end
