(* ===== verification/Loading.thy ===== *)
theory Loading
  imports Timestamp
begin

text \<open>
  The load step of \<open>src/dashboard/dashboard.py\<close> as written (lines 65--76): the rows of
  \<open>all_df\<close> as read from CSV, with the six datetime columns of line 66 still text
  (\<open>raw_order_row\<close>), the in-place sort of line 68 on the approval text, and the loop of
  lines 75--76 that converts the six columns one after the other with \<open>pd.to_datetime\<close>
  (\<open>convert_datetime_cols\<close>), any cell of which can raise. Only the approval column is
  read after the load, so the model keeps the converted approval times (\<open>convert_rows\<close>)
  and checks the other five columns for the exception only. \<open>reset_index\<close> (line 69) adds a
  column nothing reads and is not modelled.
\<close>

section \<open>Raw rows and the load\<close>

record raw_order_row =
  raw_order_id :: string
  raw_customer_id :: string
  raw_customer_state :: "string option"
  raw_product_id :: "string option"
  raw_product_category_name_english :: "string option"
  raw_payment_value :: "money option"
  raw_order_approved_at :: "string option"
  raw_order_delivered_carrier_date :: "string option"
  raw_order_delivered_customer_date :: "string option"
  raw_order_estimated_delivery_date :: "string option"
  raw_order_purchase_timestamp :: "string option"
  raw_shipping_limit_date :: "string option"

text \<open>The list \<open>datetime_cols\<close> of line 66, in its order.\<close>

definition datetime_cols :: "(raw_order_row \<Rightarrow> string option) list" where
  "datetime_cols =
     [raw_order_approved_at, raw_order_delivered_carrier_date, raw_order_delivered_customer_date,
      raw_order_estimated_delivery_date, raw_order_purchase_timestamp, raw_shipping_limit_date]"

text \<open>
  \<open>pd.to_datetime\<close> on one cell: NaN stays missing (NaT), a parsable text becomes its
  timestamp, anything else raises.
\<close>

definition to_datetime :: "string option \<Rightarrow> py_error + timestamp option" where
  "to_datetime cell =
     (case cell of
        None \<Rightarrow> Inr None
      | Some s \<Rightarrow> (case parse_timestamp s of None \<Rightarrow> Inl ValueError | Some t \<Rightarrow> Inr (Some t)))"

text \<open>\<open>pd.to_datetime\<close> on a whole column: every cell converted, the first failure raises.\<close>

fun to_datetime_column :: "string option list \<Rightarrow> py_error + timestamp option list" where
  "to_datetime_column [] = Inr []"
| "to_datetime_column (c # cs) =
     (case to_datetime c of
        Inl err \<Rightarrow> Inl err
      | Inr t \<Rightarrow> (case to_datetime_column cs of Inl err \<Rightarrow> Inl err | Inr ts \<Rightarrow> Inr (t # ts)))"

text \<open>The loop of lines 75--76: the columns are converted in the order of \<open>datetime_cols\<close>.\<close>

fun convert_datetime_cols :: "(raw_order_row \<Rightarrow> string option) list \<Rightarrow> raw_order_row list \<Rightarrow> py_error + unit" where
  "convert_datetime_cols [] rs = Inr ()"
| "convert_datetime_cols (col # cols) rs =
     (case to_datetime_column (map col rs) of
        Inl err \<Rightarrow> Inl err
      | Inr _ \<Rightarrow> convert_datetime_cols cols rs)"

text \<open>The rows after the loop, with the converted approval time.\<close>

definition convert_row :: "raw_order_row \<Rightarrow> py_error + order_row" where
  "convert_row r =
     (case to_datetime (raw_order_approved_at r) of
        Inl err \<Rightarrow> Inl err
      | Inr t \<Rightarrow> Inr \<lparr>order_id = raw_order_id r, customer_id = raw_customer_id r,
                     customer_state = raw_customer_state r, product_id = raw_product_id r,
                     product_category_name_english = raw_product_category_name_english r,
                     payment_value = raw_payment_value r, order_approved_at = t\<rparr>)"

fun convert_rows :: "raw_order_row list \<Rightarrow> py_error + order_row list" where
  "convert_rows [] = Inr []"
| "convert_rows (r # rs) =
     (case convert_row r of
        Inl err \<Rightarrow> Inl err
      | Inr r' \<Rightarrow> (case convert_rows rs of Inl err \<Rightarrow> Inl err | Inr rs' \<Rightarrow> Inr (r' # rs')))"

text \<open>
  Line 68 sorts by the approval column as loaded, i.e. as Python strings, NaN last
  (\<open>na_position='last'\<close>); then the loop converts the six columns.
\<close>

definition nan_last_str_key :: "string option \<Rightarrow> bool \<times> string" where
  "nan_last_str_key c = (case c of None \<Rightarrow> (True, []) | Some s \<Rightarrow> (False, s))"

definition load_all_df_raw :: "raw_order_row list \<Rightarrow> py_error + order_row list" where
  "load_all_df_raw raws =
     (let sorted = sort_key (\<lambda>r. nan_last_str_key (raw_order_approved_at r)) raws in
      case convert_datetime_cols datetime_cols sorted of
        Inl err \<Rightarrow> Inl err
      | Inr _ \<Rightarrow> convert_rows sorted)"

text \<open>
  A cell in the form pandas writes a timestamp column to CSV: missing, or the printed form
  of the timestamp it parses to.
\<close>

definition canonical_cell :: "string option \<Rightarrow> bool" where
  "canonical_cell c =
     (case c of None \<Rightarrow> True
      | Some s \<Rightarrow> (case parse_timestamp s of None \<Rightarrow> False | Some t \<Rightarrow> format_timestamp t = s))"

text \<open>
  Text laid out as \<open>YYYY-MM-DD HH:MM:SS\<close> with a digit at every digit position. Such a text
  that still does not parse names an impossible date or time (month 13, 30 February,
  hour 24, \<open>\<dots>\<close>) or one outside pandas' range, which pandas rejects as well.
\<close>

definition iso_shape :: "string \<Rightarrow> bool" where
  "iso_shape s =
     list_all2 (\<lambda>c p. if p = CHR ''d'' then digit_val c \<noteq> None else c = p) s ''dddd-dd-dd dd:dd:dd''"

text \<open>
  Samples of the raw table: an order of 2018-01-02 listed before one without approval time
  and one of 2018-01-01; and a row whose approval time is valid but whose shipping limit
  names 30 February.
\<close>

definition raw_example_rows :: "raw_order_row list" where
  "raw_example_rows =
    [\<lparr>raw_order_id = ''o4'', raw_customer_id = ''c1'', raw_customer_state = Some ''SP'',
      raw_product_id = Some ''p4'', raw_product_category_name_english = None,
      raw_payment_value = Some 5, raw_order_approved_at = Some ''2018-01-02 10:00:00'',
      raw_order_delivered_carrier_date = None, raw_order_delivered_customer_date = None,
      raw_order_estimated_delivery_date = Some ''2018-01-20 00:00:00'',
      raw_order_purchase_timestamp = Some ''2017-12-31 22:00:00'', raw_shipping_limit_date = Some ''2018-01-08 10:00:00''\<rparr>,
     \<lparr>raw_order_id = ''o7'', raw_customer_id = ''c7'', raw_customer_state = Some ''RJ'',
      raw_product_id = Some ''p7'', raw_product_category_name_english = Some ''toys'',
      raw_payment_value = Some 3, raw_order_approved_at = None,
      raw_order_delivered_carrier_date = None, raw_order_delivered_customer_date = None,
      raw_order_estimated_delivery_date = Some ''2018-01-20 00:00:00'',
      raw_order_purchase_timestamp = Some ''2017-12-31 22:00:00'', raw_shipping_limit_date = None\<rparr>,
     \<lparr>raw_order_id = ''o1'', raw_customer_id = ''c1'', raw_customer_state = Some ''SP'',
      raw_product_id = Some ''p1'', raw_product_category_name_english = Some ''toys'',
      raw_payment_value = Some 10, raw_order_approved_at = Some ''2018-01-01 09:00:00'',
      raw_order_delivered_carrier_date = None, raw_order_delivered_customer_date = None,
      raw_order_estimated_delivery_date = Some ''2018-01-20 00:00:00'',
      raw_order_purchase_timestamp = Some ''2017-12-31 22:00:00'', raw_shipping_limit_date = Some ''2018-01-07 09:00:00''\<rparr>]"

definition bad_raw_rows :: "raw_order_row list" where
  "bad_raw_rows =
    [\<lparr>raw_order_id = ''o8'', raw_customer_id = ''c8'', raw_customer_state = Some ''SP'',
      raw_product_id = Some ''p8'', raw_product_category_name_english = Some ''toys'',
      raw_payment_value = Some 4, raw_order_approved_at = Some ''2018-02-20 08:00:00'',
      raw_order_delivered_carrier_date = None, raw_order_delivered_customer_date = None,
      raw_order_estimated_delivery_date = Some ''2018-01-20 00:00:00'',
      raw_order_purchase_timestamp = Some ''2017-12-31 22:00:00'', raw_shipping_limit_date = Some ''2018-02-30 08:00:00''\<rparr>]"

section \<open>Lemmas\<close>

lemma to_datetime_Inl: "to_datetime c = Inl err \<Longrightarrow> err = ValueError"
  by (auto simp: to_datetime_def split: option.splits)

lemma canonical_to_datetime: "canonical_cell c \<Longrightarrow> \<exists>t. to_datetime c = Inr t"
  by (auto simp: canonical_cell_def to_datetime_def split: option.splits)

lemma to_datetime_column_ok:
  "\<forall>c \<in> set cs. canonical_cell c \<Longrightarrow> \<exists>ts. to_datetime_column cs = Inr ts"
proof (induction cs)
  case (Cons c cs)
  then obtain t ts where "to_datetime c = Inr t" "to_datetime_column cs = Inr ts"
    using canonical_to_datetime by fastforce
  then show ?case by simp
qed simp

lemma to_datetime_column_Inl:
  "c \<in> set cs \<Longrightarrow> to_datetime c = Inl ValueError \<Longrightarrow> to_datetime_column cs = Inl ValueError"
proof (induction cs)
  case (Cons x cs)
  show ?case
  proof (cases "to_datetime x")
    case (Inl e)
    then show ?thesis using to_datetime_Inl [OF Inl] by simp
  next
    case (Inr t)
    then have "c \<in> set cs" using Cons.prems by auto
    with Cons.IH Cons.prems(2) Inr show ?thesis by simp
  qed
qed simp

lemma convert_datetime_cols_ok:
  "\<forall>col \<in> set cols. \<forall>r \<in> set rs. canonical_cell (col r) \<Longrightarrow> convert_datetime_cols cols rs = Inr ()"
proof (induction cols)
  case (Cons col cols)
  then have "\<forall>c \<in> set (map col rs). canonical_cell c" by simp
  then obtain ts where "to_datetime_column (map col rs) = Inr ts" using to_datetime_column_ok by blast
  with Cons show ?case by simp
qed simp

lemma convert_datetime_cols_Inl:
  assumes "col \<in> set cols" "r \<in> set rs" "to_datetime (col r) = Inl ValueError"
  shows "convert_datetime_cols cols rs = Inl ValueError"
  using assms(1)
proof (induction cols)
  case (Cons c cols)
  show ?case
  proof (cases "to_datetime_column (map c rs)")
    case (Inl e)
    have "e = ValueError"
    proof (cases "c = col")
      case True
      with assms(2,3) have "to_datetime_column (map c rs) = Inl ValueError"
        by (intro to_datetime_column_Inl [of "col r"]) simp_all
      with Inl show ?thesis by simp
    next
      case False
      show ?thesis
      proof (rule ccontr)
        assume ne: "e \<noteq> ValueError"
        have "\<forall>d \<in> set (map c rs). \<forall>err. to_datetime d = Inl err \<longrightarrow> err = ValueError"
          using to_datetime_Inl by blast
        moreover have "\<And>ds. (\<forall>d \<in> set ds. \<forall>err. to_datetime d = Inl err \<longrightarrow> err = ValueError)
            \<Longrightarrow> to_datetime_column ds \<noteq> Inl e"
        proof -
          fix ds show "(\<forall>d \<in> set ds. \<forall>err. to_datetime d = Inl err \<longrightarrow> err = ValueError)
            \<Longrightarrow> to_datetime_column ds \<noteq> Inl e"
            using ne by (induction ds) (auto split: sum.splits)
        qed
        ultimately show False using Inl by blast
      qed
    qed
    with Inl show ?thesis by simp
  next
    case (Inr ts)
    have "col \<in> set cols"
    proof (rule ccontr)
      assume "col \<notin> set cols"
      with Cons.prems have "c = col" by simp
      with assms(2,3) have "to_datetime_column (map c rs) = Inl ValueError"
        by (intro to_datetime_column_Inl [of "col r"]) simp_all
      with Inr show False by simp
    qed
    with Cons.IH Inr show ?thesis by simp
  qed
qed simp

lemma convert_rows_map:
  "(\<forall>r \<in> set rs. convert_row r = Inr (h r)) \<Longrightarrow> convert_rows rs = Inr (map h rs)"
  by (induction rs) simp_all

lemma convert_row_Inr:
  "convert_row r = Inr r' \<Longrightarrow> to_datetime (raw_order_approved_at r) = Inr (order_approved_at r')"
  by (auto simp: convert_row_def split: sum.splits)

lemma convert_row_Inl: "convert_row r = Inl err \<Longrightarrow> err = ValueError"
  by (auto simp: convert_row_def to_datetime_def split: option.splits sum.splits)

lemma canonical_cell_parse:
  assumes "canonical_cell (Some s)"
  obtains t where "parse_timestamp s = Some t" "s = format_timestamp t" "in_year_range (day_of t)"
proof -
  obtain t where p: "parse_timestamp s = Some t" and f: "format_timestamp t = s"
    using assms by (auto simp: canonical_cell_def split: option.splits)
  from p have "in_year_range (day_of t)"
    by (intro in_bounds_year_range) (auto simp: parse_timestamp_def split: option.splits if_splits)
  from that [OF p f [symmetric] this] show ?thesis .
qed

lemma nan_last_key_order:
  assumes "canonical_cell c" "canonical_cell c'"
    and "to_datetime c = Inr t" "to_datetime c' = Inr t'"
  shows "nan_last_str_key c \<le> nan_last_str_key c' \<longleftrightarrow> nat_last_key t \<le> nat_last_key t'"
proof (cases c)
  case None
  then show ?thesis using assms
    by (cases c') (auto simp: canonical_cell_def to_datetime_def nan_last_str_key_def nat_last_key_def split: option.splits)
next
  case (Some s)
  show ?thesis
  proof (cases c')
    case None
    then show ?thesis using assms Some
      by (auto simp: canonical_cell_def to_datetime_def nan_last_str_key_def nat_last_key_def split: option.splits)
  next
    case (Some s')
    have "canonical_cell (Some s)" using assms(1) \<open>c = Some s\<close> by simp
    then obtain u where u: "parse_timestamp s = Some u" "s = format_timestamp u" "in_year_range (day_of u)"
      by (rule canonical_cell_parse)
    have "canonical_cell (Some s')" using assms(2) Some by simp
    then obtain u' where u': "parse_timestamp s' = Some u'" "s' = format_timestamp u'" "in_year_range (day_of u')"
      by (rule canonical_cell_parse)
    have "t = Some u" "t' = Some u'" using assms(3,4) \<open>c = Some s\<close> Some u(1) u'(1) by (simp_all add: to_datetime_def)
    then show ?thesis using \<open>c = Some s\<close> Some u u' format_timestamp_le_iff [OF u(3) u'(3)]
      by (simp add: nan_last_str_key_def nat_last_key_def)
  qed
qed

lemma convert_rows_canonical:
  assumes "\<forall>r \<in> set raws. canonical_cell (raw_order_approved_at r)"
  obtains h where "\<forall>r \<in> set raws. convert_row r = Inr (h r)"
proof -
  have "\<forall>r \<in> set raws. \<exists>r'. convert_row r = Inr r'"
  proof
    fix r assume "r \<in> set raws"
    with assms obtain t where "to_datetime (raw_order_approved_at r) = Inr t"
      using canonical_to_datetime by blast
    then show "\<exists>r'. convert_row r = Inr r'" by (simp add: convert_row_def)
  qed
  then have "\<forall>r \<in> set raws. convert_row r = Inr (projr (convert_row r))" by auto
  then show ?thesis by (rule that [of "\<lambda>r. projr (convert_row r)"])
qed

section \<open>Properties\<close>

text \<open>
  C32. When every cell of the six datetime columns is in canonical form, the load as
  written (sort the approval text, then convert the six columns, lines 68 and 75--76)
  succeeds and equals converting first and then sorting by timestamp with NaT last
  (\<open>Dataset.load_all_df\<close>), the load the rest of the model starts from.
\<close>

theorem load_string_sort_eq:
  assumes "\<forall>r \<in> set raws. \<forall>col \<in> set datetime_cols. canonical_cell (col r)"
  shows "\<exists>rows. convert_rows raws = Inr rows \<and> load_all_df_raw raws = Inr (load_all_df rows)"
proof -
  let ?sorted = "sort_key (\<lambda>r. nan_last_str_key (raw_order_approved_at r)) raws"
  have appr: "\<forall>r \<in> set raws. canonical_cell (raw_order_approved_at r)"
    using assms by (simp add: datetime_cols_def)
  obtain h where hr: "\<forall>r \<in> set raws. convert_row r = Inr (h r)"
    using appr by (rule convert_rows_canonical)
  have cols: "convert_datetime_cols datetime_cols ?sorted = Inr ()"
    using assms by (intro convert_datetime_cols_ok) auto
  have "\<forall>x \<in> set raws. \<forall>y \<in> set raws.
      nan_last_str_key (raw_order_approved_at x) \<le> nan_last_str_key (raw_order_approved_at y)
      \<longleftrightarrow> nat_last_key (order_approved_at (h x)) \<le> nat_last_key (order_approved_at (h y))"
  proof (intro ballI)
    fix x y assume x: "x \<in> set raws" and y: "y \<in> set raws"
    have "to_datetime (raw_order_approved_at x) = Inr (order_approved_at (h x))"
      "to_datetime (raw_order_approved_at y) = Inr (order_approved_at (h y))"
      using hr x y by (simp_all add: convert_row_Inr)
    with appr x y show "nan_last_str_key (raw_order_approved_at x) \<le> nan_last_str_key (raw_order_approved_at y)
      \<longleftrightarrow> nat_last_key (order_approved_at (h x)) \<le> nat_last_key (order_approved_at (h y))"
      by (intro nan_last_key_order) simp_all
  qed
  then have "map h ?sorted = load_all_df (map h raws)"
    unfolding load_all_df_def by (rule sort_key_map)
  moreover have "convert_rows ?sorted = Inr (map h ?sorted)"
    using hr by (intro convert_rows_map) simp
  ultimately show ?thesis using convert_rows_map [OF hr] cols by (simp add: load_all_df_raw_def)
qed

text \<open>
  C33. A single cell of any of the six datetime columns laid out as
  \<open>YYYY-MM-DD HH:MM:SS\<close> but naming an impossible date or time, or a time outside
  pandas' range, makes the load raise \<open>ValueError\<close>, although five of the columns are
  never used: the script stops before any table is shown.
\<close>

theorem load_invalid_date_error:
  assumes "r \<in> set raws" and "col \<in> set datetime_cols" and "col r = Some s"
    and "iso_shape s" and "parse_timestamp s = None"
  shows "load_all_df_raw raws = Inl ValueError"
proof -
  have "r \<in> set (sort_key (\<lambda>r. nan_last_str_key (raw_order_approved_at r)) raws)" using assms(1) by simp
  moreover have "to_datetime (col r) = Inl ValueError" using assms(3,5) by (simp add: to_datetime_def)
  ultimately have "convert_datetime_cols datetime_cols (sort_key (\<lambda>r. nan_last_str_key (raw_order_approved_at r)) raws)
      = Inl ValueError"
    using assms(2) by (intro convert_datetime_cols_Inl) simp_all
  then show ?thesis by (simp add: load_all_df_raw_def)
qed

theorem load_string_sort_eq_witness:
  "\<exists>rows. convert_rows raw_example_rows = Inr rows \<and> load_all_df_raw raw_example_rows = Inr (load_all_df rows)"
  by (rule load_string_sort_eq) code_simp

theorem load_invalid_date_error_witness:
  "load_all_df_raw bad_raw_rows = Inl ValueError"
proof (rule load_invalid_date_error)
  show "hd bad_raw_rows \<in> set bad_raw_rows" by (simp add: bad_raw_rows_def)
  show "raw_shipping_limit_date \<in> set datetime_cols" by (simp add: datetime_cols_def)
  show "raw_shipping_limit_date (hd bad_raw_rows) = Some ''2018-02-30 08:00:00''" by (simp add: bad_raw_rows_def)
  show "iso_shape ''2018-02-30 08:00:00''" by code_simp
  show "parse_timestamp ''2018-02-30 08:00:00'' = None" by code_simp
qed

end
