(* ===== verification/Spec2Isabelle.thy ===== *)
theory Spec2Isabelle
  imports Dashboard GeoOverlay Loading
begin

text \<open>
  \<^bold>\<open>A verification model of the Brazil e-commerce dashboard.\<close>

  The program is one Streamlit script, \<open>src/dashboard/dashboard.py\<close>. It loads a table of
  orders (\<open>all_df\<close>) and a table of customer locations (\<open>geolocation\<close>), lets the user
  pick a date range, filters the orders to that range (\<open>main_df\<close>), hands the slice to the
  class \<open>DataAnalyzer\<close>, which derives four tables with pandas, and renders totals, means
  and charts of them; the class \<open>BrazilMapPlotter\<close> draws the deduplicated customer
  locations over a map of Brazil. The parts interact only through values: the filter's
  output is the analyzer's input, the analyzer's tables are the page's input, and an
  exception anywhere stops the script, so nothing after it is drawn.

  \<^bold>\<open>Theories and what they model.\<close>
  \<^item> \<open>Prelude\<close>: the pandas primitives the script calls, as executable HOL functions:
    \<open>nunique\<close>, NaN-skipping \<open>sum_skipna\<close> and \<open>count_notna\<close>, \<open>group_keys\<close> (the keys
    of \<open>groupby\<close>: NaN dropped, sorted), \<open>sort_values_desc\<close>/\<open>sort_values_asc\<close>,
    \<open>argmax_first\<close> (\<open>idxmax\<close>), \<open>dedup_by\<close> (\<open>drop_duplicates\<close>, first occurrence
    kept), \<open>value_counts\<close>, \<open>index_first\<close> (\<open>.index[0]\<close>), \<open>series_mean\<close>; the error
    type \<open>py_error\<close>; and the lemmas every component uses (partition of sums and distinct
    counts over groups, the head of a descending sort is the first maximum, stability).
  \<^item> \<open>Dataset\<close>: the row record \<open>order_row\<close> (NaN cells as \<open>None\<close>), calendar days
    (\<open>day_of\<close>, \<open>midnight\<close>), the load as a sort by timestamp, NaT last
    (\<open>load_all_df\<close>, which C32 shows the load as written amounts to), the picker's
    default range of lines 78--91 (\<open>min_max_date\<close>, \<open>default_selection\<close>) and the date
    filter of lines 94--95 (\<open>in_date_range\<close>, \<open>main_df\<close>); two sample tables used by the
    witnesses.
  \<^item> \<open>Timestamp\<close>: what \<open>pd.to_datetime\<close> does with the two text forms the program
    meets, \<open>YYYY-MM-DD HH:MM:SS\<close> (the CSV columns) and \<open>YYYY-MM-DD\<close> (\<open>str(date)\<close> in
    the filter): the proleptic Gregorian calendar (\<open>days_from_civil\<close>, and back by the year
    loop \<open>year_of\<close> and the month scan \<open>month_of\<close>), zero-padded fields
    (\<open>digits_pad\<close>, \<open>parse_nat\<close>), the printer \<open>format_timestamp\<close> and the parser
    \<open>parse_timestamp\<close> with pandas' bounds \<open>ts_min\<close>/\<open>ts_max\<close>. These are the library's
    semantics, not lines of the script: they are the meaning of the calls at lines 76 and 94.
  \<^item> \<open>Loading\<close>: the load as written (lines 65--76): raw rows with the six datetime columns
    of line 66 as text (\<open>raw_order_row\<close>, \<open>datetime_cols\<close>), the sort of line 68 on the
    approval text with NaN last, and the conversion loop of lines 75--76 over all six columns
    (\<open>to_datetime_column\<close>, \<open>convert_datetime_cols\<close>), as \<open>load_all_df_raw\<close>.
  \<^item> \<open>Aggregator\<close>: \<open>DataAnalyzer\<close> (lines 8--45), one definition per method:
    \<open>create_daily_orders_df\<close>, \<open>create_sum_spend_df\<close>, \<open>create_sum_order_items_df\<close>,
    \<open>create_bystate_df\<close> (result \<open>py_error + _\<close>: \<open>idxmax\<close> of an empty column raises);
    \<open>daily_spec\<close> is the multiset contract of the daily table.
  \<^item> \<open>Dashboard\<close>: the script body (lines 78--203) as \<open>run_dashboard\<close>, which unpacks
    the picker's value (line 86), filters, calls the analyzer and computes what the page shows
    (\<open>render_view\<close>, record \<open>dashboard_view\<close>), one definition per section of the page
    (\<open>daily_panel\<close>, \<open>spend_panel\<close>, \<open>items_panel\<close>, \<open>state_panel\<close>), or returns the
    exception that stops it.
  \<^item> \<open>GeoOverlay\<close>: \<open>drop_duplicates_geo\<close> (line 73) and \<open>BrazilMapPlotter.plot\<close>
    (lines 47--60) as the list of drawing commands it issues (\<open>draw_cmd\<close>).
  \<^item> This theory: the property that spans the load and the analyzer.

  \<^bold>\<open>Modelling choices.\<close>
  Timestamps are integer seconds and a calendar day is \<open>t div 86400\<close>; comparing a
  timestamp with \<open>str(date)\<close> compares it with midnight of that date. Payments are integers
  (the float rounding of pandas' sums is not modelled), coordinates are reals. String keys
  are ordered by character codes, as pandas sorts them.

  \<open>sort_values\<close> and \<open>value_counts\<close> use pandas' default quicksort, which is not stable
  above 16 rows: the order of rows with equal keys is not specified. The model computes one
  admissible order (a stable sort), and the theorems are stated so that they do not depend on
  it: they speak of sortedness, sets, multisets, sums and maxima, never of the order a sort
  leaves among ties (C11 is about \<open>idxmax\<close> on the \<open>groupby\<close> table, line 42, before
  the sort of line 43; \<open>groupby\<close> orders its keys). Where the page's output does depend on that order, the theory says so instead:
  \<open>value_counts_admissible\<close> (Prelude) is the contract of \<open>value_counts\<close>, every result
  pandas may return, and C20 shows that the state tab's shown state and bars are not
  determined by that contract.

  No loop of the script needs fuel: every definition is structural recursion or a library
  combinator, except the year loop \<open>year_of\<close> of the date conversion, a
  \<^theory_text>\<open>function\<close> whose termination is proved with the measure \<open>r\<close> for a
  non-negative offset and \<open>400 - r\<close> for a negative one (a year has at most 366 days); so
  all are total and evaluate by \<open>simp\<close> or \<open>code_simp\<close> on the sample tables. Timestamps
  have one-second resolution: the fractional seconds pandas can hold do not occur in the
  dataset's text, and the representable range is pandas' nanosecond range rounded inward to
  whole seconds.

  \<^bold>\<open>Results.\<close>
  \<^item> Daily tables: the revenue and order columns sum to the totals of the slice (C1, C2);
    the daily table implements its multiset contract (C3) and fills the gaps of its day span
    (C4); the spend table is its revenue column (C5).
  \<^item> Order items: sorted by count (C6); its counts add up to the rows with category and
    product id, not all rows (C7); one row per category (C8).
  \<^item> Customers by state: raises exactly on a slice without states, otherwise one row per
    state of the slice (C9); the most common state is a maximum (C10) and the first of the
    tied states in the table's order (C11); counts add up to distinct customers (C12).
  \<^item> Dataset: membership in the date filter (C13), single-day ranges (C14); the default
    range keeps the orders of the last day approved at midnight only (C15); the load sort puts
    NaT last and permutes the rows (C16); the sort changes none of the derived tables (C17,
    below); the default range is spanned by the earliest and latest approval times (C29).
  \<^item> The page: empty slice and half-picked range raise (C18, C19); the state tab is not
    determined by pandas' contract (C20); totals (C21), means (C22) and the top and bottom
    five (C23); for a picked range the page renders exactly when the slice has a customer
    state (C28).
  \<^item> Geolocation: one row per customer, first occurrence kept, as the positions whose id has
    not occurred before (C24--C26); one marker per customer (C27).
  \<^item> Timestamps: printing then parsing is the identity for timestamps and for
    \<open>str(date)\<close> dates, which justifies the midnight comparison of the filter (C30); string
    order of printed timestamps is time order (C31).
  \<^item> The load as written: on canonical text in all six columns, sorting the text column
    and then converting equals the timestamp sort \<open>load_all_df\<close> the other theories start
    from (C32); one ISO-shaped cell that names no date, in any of the six columns, raises
    \<open>ValueError\<close> (C33).

  \<^bold>\<open>Not modelled.\<close>
  The CSV downloads (\<open>pd.read_csv\<close> of URLs: the rows are the model's input), the image
  download and decoding (\<open>urllib\<close>, \<open>imread\<close>), and every call that only lays out,
  styles or draws (Streamlit columns, tabs, markdown, expanders; matplotlib and seaborn
  styling; where a point lands on the overlaid map image). Their inputs or outputs appear as
  parameters or as the values the model returns. The map tab (line 218) is not composed with
  the page run. \<open>pd.to_datetime\<close> is modelled for the two ISO forms above; the other
  spellings pandas also accepts (unpadded fields, other separators, time zones, fractions of
  a second) do not occur in the dataset and are rejected by the model, so C33 is stated for
  ISO-shaped cells only. Of the six converted columns only the approval time is read after
  the load; the other five are checked for the exception and then dropped from the rows. The
  \<open>index\<close> column that \<open>reset_index\<close> (line 69) adds is never read either and is left
  out. The picker's \<open>min_value\<close>/\<open>max_value\<close> bounds are the widget's concern and are not
  modelled; \<open>run_dashboard\<close> accepts any selection.
\<close>

section \<open>Properties across components\<close>

text \<open>
  C17. Sorting \<open>all_df\<close> by approval time at load (line 68) changes none of the four tables
  the dashboard derives from the filtered slice.
\<close>

theorem load_sort_irrelevant:
  "create_daily_orders_df (main_df s e (load_all_df rows)) = create_daily_orders_df (main_df s e rows)
   \<and> create_sum_spend_df (main_df s e (load_all_df rows)) = create_sum_spend_df (main_df s e rows)
   \<and> create_sum_order_items_df (main_df s e (load_all_df rows)) = create_sum_order_items_df (main_df s e rows)
   \<and> create_bystate_df (main_df s e (load_all_df rows)) = create_bystate_df (main_df s e rows)"
  by (intro conjI; rule mset_cong; simp add: main_df_def)

end
